theory Spec2Isabelle
  imports Main "HOL-Library.Sublist" "HOL-Library.Multiset"
begin

section \<open>Strings and route segments (local-api-server.mjs)\<close>

text \<open>
  JavaScript strings are modelled as \<^typ>\<open>string\<close>. Only operations that do not look
  inside a character are used on them by the router (comparison, prefix and suffix tests,
  splitting at a slash), so the size of a code unit plays no part.
\<close>

definition startsWith :: "string \<Rightarrow> string \<Rightarrow> bool" where
  "startsWith s p = prefix p s"

definition endsWith :: "string \<Rightarrow> string \<Rightarrow> bool" where
  "endsWith s p = suffix p s"

text \<open>\<^verbatim>\<open>String.prototype.split\<close> with a one-character separator: the pieces
  between the separators, the empty ones included; the empty string gives one empty piece.\<close>

fun splitJS :: "char \<Rightarrow> string \<Rightarrow> string list" where
  "splitJS c [] = [[]]"
| "splitJS c (x # xs) =
     (if x = c then [] # splitJS c xs
      else (case splitJS c xs of [] \<Rightarrow> [[x]] | piece # pieces \<Rightarrow> (x # piece) # pieces))"

text \<open>\<^verbatim>\<open>routePath.split('/').filter(Boolean)\<close>: the empty string is the only
  falsy string.\<close>

definition splitRoutePath :: "string \<Rightarrow> string list" where
  "splitRoutePath routePath = filter (\<lambda>s. s \<noteq> []) (splitJS CHR ''/'' routePath)"

definition isBracketSegment :: "string \<Rightarrow> bool" where
  "isBracketSegment segment \<longleftrightarrow> startsWith segment ''['' \<and> endsWith segment '']''"

text \<open>The two tests that the source writes inline, in \<^verbatim>\<open>routePriority\<close> and three
  times in \<^verbatim>\<open>matchRoute\<close>.\<close>

definition isOptionalCatchAll :: "string \<Rightarrow> bool" where
  "isOptionalCatchAll part \<longleftrightarrow> startsWith part ''[[...'' \<and> endsWith part '']]''"

definition isCatchAll :: "string \<Rightarrow> bool" where
  "isCatchAll part \<longleftrightarrow> startsWith part ''[...'' \<and> endsWith part '']''"

subsection \<open>routePriority\<close>

definition routePriority :: "string \<Rightarrow> int" where
  "routePriority routePath =
     foldl (\<lambda>score part.
              if isOptionalCatchAll part then score + 0
              else if isCatchAll part then score + 1
              else if isBracketSegment part then score + 2
              else score + 10)
           0 (splitRoutePath routePath)"

subsection \<open>matchRoute\<close>

text \<open>\<^verbatim>\<open>pathname.replace(/^\/api/, '')\<close>: a leading \<^verbatim>\<open>/api\<close> is removed, whatever
  follows it.\<close>

definition stripApiPrefix :: "string \<Rightarrow> string" where
  "stripApiPrefix pathname = (if startsWith pathname ''/api'' then drop 4 pathname else pathname)"

text \<open>
  The \<^verbatim>\<open>while\<close> loop of \<^verbatim>\<open>matchRoute\<close> over the two indices. It either returns
  from the function (\<open>Inl\<close> of the returned value) or falls through with the final indices
  (\<open>Inr\<close>).
\<close>

function matchLoop :: "string list \<Rightarrow> string list \<Rightarrow> nat \<Rightarrow> nat \<Rightarrow> bool + nat \<times> nat" where
  "matchLoop routeParts pathParts i j =
     (if i < length routeParts \<and> j < length pathParts then
        (if isOptionalCatchAll (routeParts ! i) then Inl True
         else if isCatchAll (routeParts ! i) then Inl True
         else if isBracketSegment (routeParts ! i) then matchLoop routeParts pathParts (i + 1) (j + 1)
         else if routeParts ! i \<noteq> pathParts ! j then Inl False
         else matchLoop routeParts pathParts (i + 1) (j + 1))
      else Inr (i, j))"
  by pat_completeness auto
termination
  by (relation "measure (\<lambda>(routeParts, pathParts, i, j). length routeParts - i)") auto

declare matchLoop.simps [simp del]

text \<open>The code after the loop. The comparison with \<^verbatim>\<open>routeParts.length - 1\<close> is made
  on integers, since the length may be zero; where it holds, index \<open>i\<close> is in range and
  \<^verbatim>\<open>tail\<close> is defined.\<close>

definition afterLoop :: "string list \<Rightarrow> string list \<Rightarrow> nat \<Rightarrow> nat \<Rightarrow> bool" where
  "afterLoop routeParts pathParts i j =
     (if i = length routeParts \<and> j = length pathParts then True
      else if int i = int (length routeParts) - 1 then
        (if isOptionalCatchAll (routeParts ! i) then True
         else if isCatchAll (routeParts ! i) then j < length pathParts
         else False)
      else False)"

definition matchParts :: "string list \<Rightarrow> string list \<Rightarrow> bool" where
  "matchParts routeParts pathParts =
     (case matchLoop routeParts pathParts 0 0 of
        Inl b \<Rightarrow> b
      | Inr (i, j) \<Rightarrow> afterLoop routeParts pathParts i j)"

definition requestSegments :: "string \<Rightarrow> string list" where
  "requestSegments pathname = splitRoutePath (stripApiPrefix pathname)"

definition matchRoute :: "string \<Rightarrow> string \<Rightarrow> bool" where
  "matchRoute routePath pathname =
     matchParts (splitRoutePath routePath) (requestSegments pathname)"

subsection \<open>The bracket-segment convention, in the words of the specification\<close>

text \<open>
  Alignment of route segments with request segments as the specification words it: a
  literal segment equals the request segment at its place, \<^verbatim>\<open>[name]\<close> takes exactly one
  request segment, \<^verbatim>\<open>[...name]\<close> takes one or more remaining request segments,
  \<^verbatim>\<open>[[...name]]\<close> takes zero or more remaining request segments, and without a catch-all
  both lists end together. The kind of a segment is decided in the order of the source:
  optional catch-all, catch-all, dynamic, literal.
\<close>

fun segments_align :: "string list \<Rightarrow> string list \<Rightarrow> bool" where
  "segments_align [] ps = (ps = [])"
| "segments_align (r # rs) ps =
     (if isOptionalCatchAll r then True
      else if isCatchAll r then ps \<noteq> []
      else if isBracketSegment r then (case ps of [] \<Rightarrow> False | p # ps' \<Rightarrow> segments_align rs ps')
      else (case ps of [] \<Rightarrow> False | p # ps' \<Rightarrow> r = p \<and> segments_align rs ps'))"

text \<open>
  The specification does not say what becomes of route segments that follow a catch-all.
  Above they are passed over. In the stricter reading they would have to be matched as well,
  which cannot be once the catch-all has taken all that remained, so that a catch-all
  matches as the last segment of the route only.
\<close>

fun segments_align_strict :: "string list \<Rightarrow> string list \<Rightarrow> bool" where
  "segments_align_strict [] ps = (ps = [])"
| "segments_align_strict (r # rs) ps =
     (if isOptionalCatchAll r then rs = []
      else if isCatchAll r then rs = [] \<and> ps \<noteq> []
      else if isBracketSegment r
      then (case ps of [] \<Rightarrow> False | p # ps' \<Rightarrow> segments_align_strict rs ps')
      else (case ps of [] \<Rightarrow> False | p # ps' \<Rightarrow> r = p \<and> segments_align_strict rs ps'))"

text \<open>
  What the code does: a catch-all of either kind that meets a request segment ends the match
  with success, whatever follows it in the route; an optional catch-all takes zero request
  segments only as the last segment of the route.
\<close>

fun segments_align_code :: "string list \<Rightarrow> string list \<Rightarrow> bool" where
  "segments_align_code [] ps = (ps = [])"
| "segments_align_code (r # rs) ps =
     (if isOptionalCatchAll r then ps \<noteq> [] \<or> rs = []
      else if isCatchAll r then ps \<noteq> []
      else if isBracketSegment r then (case ps of [] \<Rightarrow> False | p # ps' \<Rightarrow> segments_align_code rs ps')
      else (case ps of [] \<Rightarrow> False | p # ps' \<Rightarrow> r = p \<and> segments_align_code rs ps'))"

subsection \<open>buildRouteTable\<close>

record route =
  routePath :: string
  modulePath :: string

text \<open>
  What \<^verbatim>\<open>readdir(dir, { withFileTypes: true })\<close> yields, recursively: an entry has a
  name and is a directory (with its own entries) or is not. The listing of every directory
  under the root is taken to succeed.
\<close>

datatype dirent = FileEntry string | DirEntry string "dirent list"

text \<open>The two functions of \<^verbatim>\<open>node:path\<close> that the walk calls. They belong to the
  platform (separator, normalisation), so they are parameters of the model.\<close>

record nodePath =
  join :: "string \<Rightarrow> string \<Rightarrow> string"
  relative :: "string \<Rightarrow> string \<Rightarrow> string"

text \<open>\<^verbatim>\<open>.replace(/\\/g, '/')\<close>; character \<open>0x5C\<close> is the backslash.\<close>

definition replaceBackslashes :: "string \<Rightarrow> string" where
  "replaceBackslashes s = map (\<lambda>c. if c = CHR 0x5C then CHR ''/'' else c) s"

text \<open>\<^verbatim>\<open>.replace(/\.js$/, '')\<close> and \<^verbatim>\<open>.replace(/\/index$/, '')\<close>: a regular
  expression that is a literal anchored at the end removes that literal when the string ends
  with it.\<close>

definition removeAtEnd :: "string \<Rightarrow> string \<Rightarrow> string" where
  "removeAtEnd ending s = (if endsWith s ending then take (length s - length ending) s else s)"

definition toRoutePath :: "nodePath \<Rightarrow> string \<Rightarrow> string \<Rightarrow> string" where
  "toRoutePath P root absolute =
     removeAtEnd ''/index'' (removeAtEnd ''.js'' (replaceBackslashes (relative P root absolute)))"

text \<open>The inner function \<^verbatim>\<open>walk\<close>; the array \<^verbatim>\<open>files\<close> that it pushes to is
  passed in and returned.\<close>

fun walk :: "nodePath \<Rightarrow> string \<Rightarrow> string \<Rightarrow> dirent list \<Rightarrow> route list \<Rightarrow> route list" where
  "walk P root dir [] files = files"
| "walk P root dir (DirEntry name sub # entries) files =
     walk P root dir entries (walk P root (join P dir name) sub files)"
| "walk P root dir (FileEntry name # entries) files =
     (if \<not> endsWith name ''.js'' then walk P root dir entries files
      else if startsWith name ''_'' then walk P root dir entries files
      else walk P root dir entries
             (files @ [\<lparr>routePath = toRoutePath P root (join P dir name),
                        modulePath = join P dir name\<rparr>]))"

text \<open>
  \<^verbatim>\<open>Array.prototype.sort\<close> with a comparator: the sort is stable (ECMAScript 2019), so
  for a consistent comparator its result is the one of a stable insertion sort: an element
  goes before the first later element that the comparator does not put before it.
\<close>

fun insertBy :: "('a \<Rightarrow> 'a \<Rightarrow> int) \<Rightarrow> 'a \<Rightarrow> 'a list \<Rightarrow> 'a list" where
  "insertBy cmp x [] = [x]"
| "insertBy cmp x (y # ys) = (if cmp x y \<le> 0 then x # y # ys else y # insertBy cmp x ys)"

definition sortJS :: "('a \<Rightarrow> 'a \<Rightarrow> int) \<Rightarrow> 'a list \<Rightarrow> 'a list" where
  "sortJS cmp xs = foldr (insertBy cmp) xs []"

definition byPriority :: "route \<Rightarrow> route \<Rightarrow> int" where
  "byPriority a b = routePriority (routePath b) - routePriority (routePath a)"

text \<open>The third argument is the file system below \<open>root\<close>: \<open>None\<close> when
  \<^verbatim>\<open>existsSync(root)\<close> is false.\<close>

definition buildRouteTable :: "nodePath \<Rightarrow> string \<Rightarrow> dirent list option \<Rightarrow> route list" where
  "buildRouteTable P root fs =
     (case fs of
        None \<Rightarrow> []
      | Some entries \<Rightarrow> sortJS byPriority (walk P root root entries []))"

subsection \<open>pickModule\<close>

text \<open>\<^verbatim>\<open>pathname.startsWith('/api') ? pathname.slice(4) || '/' : pathname\<close>\<close>

definition apiPathOf :: "string \<Rightarrow> string" where
  "apiPathOf pathname =
     (if startsWith pathname ''/api''
      then (if drop 4 pathname = [] then ''/'' else drop 4 pathname)
      else pathname)"

fun pickLoop :: "string \<Rightarrow> route list \<Rightarrow> string option" where
  "pickLoop apiPath [] = None"
| "pickLoop apiPath (candidate # routes) =
     (if matchRoute (routePath candidate) apiPath then Some (modulePath candidate)
      else pickLoop apiPath routes)"

definition pickModule :: "string \<Rightarrow> route list \<Rightarrow> string option" where
  "pickModule pathname routes = pickLoop (apiPathOf pathname) routes"

subsection \<open>Priority and file convention, in the words of the specification\<close>

text \<open>The score of one segment: 10 for a literal, 2 for \<^verbatim>\<open>[name]\<close>, 1 for
  \<^verbatim>\<open>[...name]\<close>, 0 for \<^verbatim>\<open>[[...name]]\<close>.\<close>

definition segmentScore :: "string \<Rightarrow> int" where
  "segmentScore part =
     (if isOptionalCatchAll part then 0
      else if isCatchAll part then 1
      else if isBracketSegment part then 2
      else 10)"

definition nonIncreasingPriority :: "route list \<Rightarrow> bool" where
  "nonIncreasingPriority routes =
     sorted_wrt (\<lambda>a b. routePriority (routePath a) \<ge> routePriority (routePath b)) routes"

text \<open>The files under a directory, recursively, each as the list of names that leads to it
  from that directory.\<close>

fun filesUnder :: "dirent list \<Rightarrow> string list list" where
  "filesUnder [] = []"
| "filesUnder (FileEntry name # entries) = [name] # filesUnder entries"
| "filesUnder (DirEntry name sub # entries) =
     map ((#) name) (filesUnder sub) @ filesUnder entries"

definition isRouteFile :: "string list \<Rightarrow> bool" where
  "isRouteFile names \<longleftrightarrow> endsWith (last names) ''.js'' \<and> \<not> startsWith (last names) ''_''"

definition absoluteOf :: "nodePath \<Rightarrow> string \<Rightarrow> string list \<Rightarrow> string" where
  "absoluteOf P dir names = foldl (join P) dir names"

text \<open>
  The route path of a file as the specification words it, from the root-relative path:
  every backslash becomes a slash, then \<^verbatim>\<open>.js\<close> is taken off the end, then
  \<^verbatim>\<open>/index\<close> is taken off the end. These are written on their own, without the
  functions of the walk.
\<close>

fun slashesForward :: "string \<Rightarrow> string" where
  "slashesForward [] = []"
| "slashesForward (c # cs) =
     (if c = CHR 0x5C then CHR ''/'' # slashesForward cs else c # slashesForward cs)"

definition withoutTrailing :: "string \<Rightarrow> string \<Rightarrow> string" where
  "withoutTrailing ending s =
     (if suffix ending s then rev (drop (length ending) (rev s)) else s)"

definition routePathOf :: "string \<Rightarrow> string" where
  "routePathOf relativePath =
     withoutTrailing ''/index'' (withoutTrailing ''.js'' (slashesForward relativePath))"

definition routeOf :: "nodePath \<Rightarrow> string \<Rightarrow> string \<Rightarrow> string list \<Rightarrow> route" where
  "routeOf P root dir names =
     \<lparr>routePath = routePathOf (relative P root (absoluteOf P dir names)),
      modulePath = absoluteOf P dir names\<rparr>"

text \<open>\<^verbatim>\<open>path.join\<close> and \<^verbatim>\<open>path.relative\<close> on POSIX, for a normalised root and
  the paths the walk builds below it; used in the examples only.\<close>

definition posixPath :: nodePath where
  "posixPath = \<lparr>join = (\<lambda>dir name. dir @ ''/'' @ name),
                relative = (\<lambda>root absolute. drop (length root + 1) absolute)\<rparr>"

definition exampleTree :: "dirent list" where
  "exampleTree =
     [FileEntry ''[[...all]].js'',
      FileEntry ''_util.js'',
      DirEntry ''data'' [FileEntry ''[id].js'', FileEntry ''index.js'', FileEntry ''notes.md''],
      FileEntry ''weather.js'']"

text \<open>The same two functions on Windows, where the separator is the backslash.\<close>

definition backslash :: char where
  "backslash = CHR 0x5C"

definition win32Path :: nodePath where
  "win32Path = \<lparr>join = (\<lambda>dir name. dir @ [backslash] @ name),
                relative = (\<lambda>root absolute. drop (length root + 1) absolute)\<rparr>"

text \<open>A directory \<^verbatim>\<open>api\<close> that holds \<^verbatim>\<open>x.js\<close> and, in a directory of its own
  named \<^verbatim>\<open>api\<close>, another \<^verbatim>\<open>x.js\<close>; and one that holds \<^verbatim>\<open>apikeys.js\<close>.\<close>

definition nestedApiTree :: "dirent list" where
  "nestedApiTree = [DirEntry ''api'' [FileEntry ''x.js''], FileEntry ''x.js'']"

definition apikeysTree :: "dirent list" where
  "apikeysTree = [FileEntry ''apikeys.js'']"


section \<open>The request dispatcher (local-api-server.mjs)\<close>

subsection \<open>Responses and headers\<close>

text \<open>A thrown JavaScript value: an \<^verbatim>\<open>Error\<close> with its message, or a value that is
  not an \<^verbatim>\<open>Error\<close>.\<close>

datatype exn = Thrown string | ThrownValue string

datatype jsonValue =
    JString string
  | JNumber int
  | JBool bool
  | JObject "(string \<times> jsonValue) list"
  | JArray "jsonValue list"

text \<open>The body of a response: \<open>JsonText v\<close> stands for the text
  \<^verbatim>\<open>JSON.stringify(v)\<close>, \<open>Bytes\<close> for any other content.\<close>

datatype body = JsonText jsonValue | Bytes string

text \<open>A \<^verbatim>\<open>Headers\<close> object: the pairs of lower-case name and value, in the order in
  which they were added.\<close>

type_synonym headerList = "(string \<times> string) list"

record response =
  status :: nat
  resHeaders :: headerList
  resBody :: body
  bodyUsed :: bool

definition ok :: "response \<Rightarrow> bool" where
  "ok r \<longleftrightarrow> 200 \<le> status r \<and> status r \<le> 299"

text \<open>\<^verbatim>\<open>json(data, status)\<close>; no caller passes \<^verbatim>\<open>extraHeaders\<close>.\<close>

definition json :: "jsonValue \<Rightarrow> nat \<Rightarrow> response" where
  "json data st =
     \<lparr>status = st, resHeaders = [(''content-type'', ''application/json'')],
      resBody = JsonText data, bodyUsed = False\<rparr>"

text \<open>\<^verbatim>\<open>toLowerCase\<close> on the letters of ASCII, which are the letters a header name
  can hold; other characters are left as they are.\<close>

definition lowerChar :: "char \<Rightarrow> char" where
  "lowerChar c =
     (case map_of (zip ''ABCDEFGHIJKLMNOPQRSTUVWXYZ'' ''abcdefghijklmnopqrstuvwxyz'') c of
        Some l \<Rightarrow> l
      | None \<Rightarrow> c)"

definition toLowerCase :: "string \<Rightarrow> string" where
  "toLowerCase s = map lowerChar s"

text \<open>The value of a header in \<^verbatim>\<open>req.headers\<close> of Node: a string, an array of strings,
  or neither.\<close>

datatype headerValue = Single string | Multiple "string list" | Missing

text \<open>
  What \<^verbatim>\<open>Headers.append\<close> and \<^verbatim>\<open>Headers.set\<close> do with their arguments first
  (Fetch standard): leading and trailing HTTP whitespace (tab, line feed, carriage return,
  space) is taken off the value; a name that is not a token, or a value that holds a NUL, a
  line feed or a carriage return, makes them throw a \<^verbatim>\<open>TypeError\<close>.
\<close>

definition httpWhitespace :: "char \<Rightarrow> bool" where
  "httpWhitespace c \<longleftrightarrow> c = CHR 0x09 \<or> c = CHR 0x0A \<or> c = CHR 0x0D \<or> c = CHR 0x20"

definition normalizeValue :: "string \<Rightarrow> string" where
  "normalizeValue v = rev (dropWhile httpWhitespace (rev (dropWhile httpWhitespace v)))"

definition tokenChar :: "char \<Rightarrow> bool" where
  "tokenChar c \<longleftrightarrow>
     c \<in> set (''0123456789ABCDEFGHIJKLMNOPQRSTUVWXYZabcdefghijklmnopqrstuvwxyz''
              @ [CHR 0x21, CHR 0x23, CHR 0x24, CHR 0x25, CHR 0x26, CHR 0x27, CHR 0x2A, CHR 0x2B,
                 CHR 0x2D, CHR 0x2E, CHR 0x5E, CHR 0x5F, CHR 0x60, CHR 0x7C, CHR 0x7E])"

definition validName :: "string \<Rightarrow> bool" where
  "validName name \<longleftrightarrow> name \<noteq> [] \<and> list_all tokenChar name"

definition validValue :: "string \<Rightarrow> bool" where
  "validValue v \<longleftrightarrow> list_all (\<lambda>c. c \<noteq> CHR 0x00 \<and> c \<noteq> CHR 0x0A \<and> c \<noteq> CHR 0x0D) v"

definition headersAppend :: "headerList \<Rightarrow> string \<Rightarrow> string \<Rightarrow> exn + headerList" where
  "headersAppend hdrs name v =
     (if \<not> validName name \<or> \<not> validValue (normalizeValue v) then Inl (Thrown ''TypeError'')
      else Inr (hdrs @ [(toLowerCase name, normalizeValue v)]))"

text \<open>\<^verbatim>\<open>Headers.set\<close>, after the same two steps: the first header of that name takes
  the value and the others of that name are removed; without one, the header is appended.\<close>

fun setFirst :: "string \<Rightarrow> string \<Rightarrow> headerList \<Rightarrow> headerList" where
  "setFirst n v [] = []"
| "setFirst n v ((k, w) # hdrs) =
     (if k = n then (n, v) # filter (\<lambda>h. fst h \<noteq> n) hdrs else (k, w) # setFirst n v hdrs)"

definition headersSet :: "headerList \<Rightarrow> string \<Rightarrow> string \<Rightarrow> exn + headerList" where
  "headersSet hdrs name v =
     (if \<not> validName name \<or> \<not> validValue (normalizeValue v) then Inl (Thrown ''TypeError'')
      else if toLowerCase name \<in> set (map fst hdrs)
      then Inr (setFirst (toLowerCase name) (normalizeValue v) hdrs)
      else Inr (hdrs @ [(toLowerCase name, normalizeValue v)]))"

text \<open>\<^verbatim>\<open>Headers.has\<close> and the values stored under a name; both ignore the case of
  the name asked for.\<close>

definition headersHas :: "headerList \<Rightarrow> string \<Rightarrow> bool" where
  "headersHas hdrs name \<longleftrightarrow> toLowerCase name \<in> set (map fst hdrs)"

definition headersValues :: "headerList \<Rightarrow> string \<Rightarrow> string list" where
  "headersValues hdrs name = map snd (filter (\<lambda>h. fst h = toLowerCase name) hdrs)"

subsection \<open>toHeaders\<close>

text \<open>\<^verbatim>\<open>value.forEach(v => headers.append(key, v))\<close>; a throw ends it.\<close>

fun appendAll :: "headerList \<Rightarrow> string \<Rightarrow> string list \<Rightarrow> exn + headerList" where
  "appendAll hdrs key [] = Inr hdrs"
| "appendAll hdrs key (v # vs) =
     (case headersAppend hdrs key v of
        Inl error \<Rightarrow> Inl error
      | Inr hdrs' \<Rightarrow> appendAll hdrs' key vs)"

text \<open>The callback of \<^verbatim>\<open>Object.entries(nodeHeaders).forEach\<close>, on the headers built
  so far.\<close>

definition toHeadersEntry :: "bool \<Rightarrow> headerList \<Rightarrow> string \<times> headerValue \<Rightarrow> exn + headerList" where
  "toHeadersEntry stripOrigin hdrs entry =
     (let key = fst entry; lowerKey = toLowerCase key in
      if lowerKey = ''host'' then Inr hdrs
      else if stripOrigin \<and>
              (lowerKey = ''origin'' \<or> lowerKey = ''referer'' \<or> startsWith lowerKey ''sec-fetch-'')
      then Inr hdrs
      else (case snd entry of
              Multiple vs \<Rightarrow> appendAll hdrs key vs
            | Single v \<Rightarrow> headersSet hdrs key v
            | Missing \<Rightarrow> Inr hdrs))"

text \<open>The \<^verbatim>\<open>forEach\<close> over the entries; a throw of the callback ends it and is the
  throw of \<^verbatim>\<open>toHeaders\<close>.\<close>

fun toHeadersLoop :: "bool \<Rightarrow> headerList \<Rightarrow> (string \<times> headerValue) list \<Rightarrow> exn + headerList" where
  "toHeadersLoop stripOrigin hdrs [] = Inr hdrs"
| "toHeadersLoop stripOrigin hdrs (entry # entries) =
     (case toHeadersEntry stripOrigin hdrs entry of
        Inl error \<Rightarrow> Inl error
      | Inr hdrs' \<Rightarrow> toHeadersLoop stripOrigin hdrs' entries)"

definition toHeaders :: "(string \<times> headerValue) list \<Rightarrow> bool \<Rightarrow> exn + headerList" where
  "toHeaders nodeHeaders stripOrigin = toHeadersLoop stripOrigin [] nodeHeaders"

subsection \<open>The environment of a request\<close>

record requestUrl =
  pathname :: string
  search :: string
  href :: string

record incomingMessage =
  httpMethod :: string
  headers :: "(string \<times> headerValue) list"

text \<open>What \<^verbatim>\<open>new Request(url, init)\<close> and \<^verbatim>\<open>fetch(target, init)\<close> are given.\<close>

record fetchRequest =
  url :: string
  fetchMethod :: string
  fetchHeaders :: headerList
  fetchBody :: "string option"

text \<open>The value a handler resolves to, and the default export of a handler module.\<close>

datatype jsValue = ResponseValue response | OtherValue

datatype defaultExport = HandlerFunction "fetchRequest \<Rightarrow> exn + jsValue" | NotAFunction

text \<open>
  Everything outside the program that \<^verbatim>\<open>dispatch\<close> reaches: the file system test, the
  dynamic import (the module cache keeps its result), the \<open>n\<close>-th draining of the request
  stream by \<^verbatim>\<open>readBody\<close> (counted from 0; it may throw, and yields \<open>None\<close> for
  \<^verbatim>\<open>undefined\<close>), the constructor of \<^verbatim>\<open>Request\<close>, which may throw, the global
  \<^verbatim>\<open>fetch\<close>, \<^verbatim>\<open>path.basename\<close> and the clock. Logging is left out.
\<close>

record environment =
  existsSync :: "string \<Rightarrow> bool"
  importHandler :: "string \<Rightarrow> exn + defaultExport"
  readBody :: "nat \<Rightarrow> exn + string option"
  requestError :: "fetchRequest \<Rightarrow> exn option"
  fetch :: "fetchRequest \<Rightarrow> exn + response"
  basename :: "string \<Rightarrow> string"
  isoNow :: string

record serverContext =
  port :: nat
  remoteBase :: string
  resourceDir :: string
  apiDir :: string
  mode :: string

text \<open>What the sidecar hands on: a call of the global \<^verbatim>\<open>fetch\<close>, or a call of the
  handler of a module.\<close>

datatype event = CloudFetch fetchRequest | HandlerCall string fetchRequest

text \<open>Decimal digits of a number inside a template string.\<close>

fun showNat :: "nat \<Rightarrow> string" where
  "showNat n =
     (if n < 10 then [''0123456789'' ! n] else showNat (n div 10) @ [''0123456789'' ! (n mod 10)])"

declare showNat.simps [simp del]

subsection \<open>proxyToCloud and tryCloudFallback\<close>

text \<open>\<^verbatim>\<open>['GET', 'HEAD'].includes(req.method)\<close>, written twice in the source.\<close>

definition withoutBody :: "incomingMessage \<Rightarrow> bool" where
  "withoutBody req \<longleftrightarrow> httpMethod req \<in> set [''GET'', ''HEAD'']"

text \<open>\<open>reads\<close> is the number of times the request stream was drained before.\<close>

definition proxyToCloud ::
  "environment \<Rightarrow> requestUrl \<Rightarrow> incomingMessage \<Rightarrow> string \<Rightarrow> nat \<Rightarrow> (exn + response) \<times> event list"
where
  "proxyToCloud env requestUrl req base reads =
     (let target = base @ pathname requestUrl @ search requestUrl in
      case (if withoutBody req then Inr None else readBody env reads) of
        Inl e \<Rightarrow> (Inl e, [])
      | Inr body \<Rightarrow>
          (case toHeaders (headers req) True of
             Inl e \<Rightarrow> (Inl e, [])
           | Inr hdrs \<Rightarrow>
               (let outgoing = \<lparr>url = target, fetchMethod = httpMethod req,
                                 fetchHeaders = hdrs, fetchBody = body\<rparr>
                in (fetch env outgoing, [CloudFetch outgoing]))))"

definition tryCloudFallback ::
  "environment \<Rightarrow> requestUrl \<Rightarrow> incomingMessage \<Rightarrow> serverContext \<Rightarrow> nat \<Rightarrow> response option \<times> event list"
where
  "tryCloudFallback env requestUrl req ctx reads =
     (case proxyToCloud env requestUrl req (remoteBase ctx) reads of
        (Inr cloudResponse, events) \<Rightarrow> (Some cloudResponse, events)
      | (Inl error, events) \<Rightarrow> (None, events))"

text \<open>\<^verbatim>\<open>if (cloudResponse) return cloudResponse; return ...\<close>, after the events
  \<open>before\<close>.\<close>

definition orElse :: "event list \<Rightarrow> response option \<times> event list \<Rightarrow> response \<Rightarrow> response \<times> event list" where
  "orElse before fallback other =
     (case fst fallback of
        Some cloudResponse \<Rightarrow> (cloudResponse, before @ snd fallback)
      | None \<Rightarrow> (other, before @ snd fallback))"

subsection \<open>dispatch\<close>

definition handleLocalServiceStatus :: "string \<Rightarrow> serverContext \<Rightarrow> response" where
  "handleLocalServiceStatus timestamp ctx =
     json (JObject
       [(''success'', JBool True),
        (''timestamp'', JString timestamp),
        (''summary'', JObject [(''operational'', JNumber 2), (''degraded'', JNumber 0),
                               (''outage'', JNumber 0), (''unknown'', JNumber 0)]),
        (''services'', JArray
           [JObject [(''id'', JString ''local-api''), (''name'', JString ''Local Desktop API''),
                     (''category'', JString ''dev''), (''status'', JString ''operational''),
                     (''description'', JString (''Running on 127.0.0.1:'' @ showNat (port ctx)))],
            JObject [(''id'', JString ''cloud-pass-through''), (''name'', JString ''Cloud pass-through''),
                     (''category'', JString ''cloud''), (''status'', JString ''operational''),
                     (''description'', JString (''Fallback target '' @ remoteBase ctx))]]),
        (''local'', JObject [(''enabled'', JBool True), (''mode'', JString (mode ctx)),
                             (''port'', JNumber (int (port ctx))),
                             (''remoteBase'', JString (remoteBase ctx))])])
       200"

definition localStatus :: "serverContext \<Rightarrow> route list \<Rightarrow> response" where
  "localStatus ctx routes =
     json (JObject
       [(''success'', JBool True),
        (''mode'', JString (mode ctx)),
        (''port'', JNumber (int (port ctx))),
        (''apiDir'', JString (apiDir ctx)),
        (''remoteBase'', JString (remoteBase ctx)),
        (''routes'', JNumber (int (length routes)))])
       200"

definition errorJson :: "string \<Rightarrow> nat \<Rightarrow> response" where
  "errorJson message st = json (JObject [(''error'', JString message)]) st"

text \<open>The \<^verbatim>\<open>catch\<close> clause of \<^verbatim>\<open>dispatch\<close>.\<close>

definition catchClause ::
  "environment \<Rightarrow> requestUrl \<Rightarrow> incomingMessage \<Rightarrow> serverContext \<Rightarrow> nat \<Rightarrow> event list \<Rightarrow> response \<times> event list"
where
  "catchClause env requestUrl req ctx reads before =
     orElse before (tryCloudFallback env requestUrl req ctx reads)
       (errorJson ''Local handler failed and cloud fallback unavailable'' 502)"

text \<open>The request built for the local handler, from the headers that \<^verbatim>\<open>toHeaders\<close>
  has returned.\<close>

definition localRequest ::
  "requestUrl \<Rightarrow> incomingMessage \<Rightarrow> headerList \<Rightarrow> string option \<Rightarrow> fetchRequest"
where
  "localRequest requestUrl req hdrs body =
     \<lparr>url = href requestUrl, fetchMethod = httpMethod req, fetchHeaders = hdrs, fetchBody = body\<rparr>"

text \<open>The \<^verbatim>\<open>try\<close> block of \<^verbatim>\<open>dispatch\<close>, for a module path that exists.\<close>

definition tryBlock ::
  "environment \<Rightarrow> requestUrl \<Rightarrow> incomingMessage \<Rightarrow> serverContext \<Rightarrow> string \<Rightarrow> response \<times> event list"
where
  "tryBlock env requestUrl req ctx modPath =
     (case importHandler env modPath of
        Inl error \<Rightarrow> catchClause env requestUrl req ctx 0 []
      | Inr NotAFunction \<Rightarrow>
          orElse [] (tryCloudFallback env requestUrl req ctx 0)
            (errorJson (''Invalid handler module: '' @ basename env modPath) 500)
      | Inr (HandlerFunction handler) \<Rightarrow>
          (case (if withoutBody req then Inr None else readBody env 0) of
             Inl error \<Rightarrow> catchClause env requestUrl req ctx 1 []
           | Inr body \<Rightarrow>
               (let reads = (if withoutBody req then 0 else 1) in
                case toHeaders (headers req) True of
                  Inl error \<Rightarrow> catchClause env requestUrl req ctx reads []
                | Inr hdrs \<Rightarrow>
                    (let request = localRequest requestUrl req hdrs body
                     in case requestError env request of
                          Some error \<Rightarrow> catchClause env requestUrl req ctx reads []
                        | None \<Rightarrow>
                            (case handler request of
                               Inl error \<Rightarrow>
                                 catchClause env requestUrl req ctx reads
                                   [HandlerCall modPath request]
                             | Inr OtherValue \<Rightarrow>
                                 orElse [HandlerCall modPath request]
                                   (tryCloudFallback env requestUrl req ctx reads)
                                   (errorJson (''Handler returned invalid response for ''
                                               @ pathname requestUrl) 500)
                             | Inr (ResponseValue localResponse) \<Rightarrow>
                                 (if \<not> ok localResponse
                                  then orElse [HandlerCall modPath request]
                                         (tryCloudFallback env requestUrl req ctx reads)
                                         localResponse
                                  else (localResponse, [HandlerCall modPath request])))))))"

definition handlerMissing ::
  "environment \<Rightarrow> requestUrl \<Rightarrow> incomingMessage \<Rightarrow> serverContext \<Rightarrow> response \<times> event list"
where
  "handlerMissing env requestUrl req ctx =
     orElse [] (tryCloudFallback env requestUrl req ctx 0)
       (errorJson ''Local handler missing and cloud fallback unavailable'' 502)"

definition dispatch ::
  "environment \<Rightarrow> requestUrl \<Rightarrow> incomingMessage \<Rightarrow> route list \<Rightarrow> serverContext \<Rightarrow> response \<times> event list"
where
  "dispatch env requestUrl req routes ctx =
     (if pathname requestUrl = ''/api/service-status''
      then (handleLocalServiceStatus (isoNow env) ctx, [])
      else if pathname requestUrl = ''/api/local-status''
      then (localStatus ctx routes, [])
      else (case pickModule (pathname requestUrl) routes of
              None \<Rightarrow> handlerMissing env requestUrl req ctx
            | Some modPath \<Rightarrow>
                (if modPath = [] \<or> \<not> existsSync env modPath
                 then handlerMissing env requestUrl req ctx
                 else tryBlock env requestUrl req ctx modPath)))"

subsection \<open>The request listener of createLocalApiServer\<close>

text \<open>
  What is written to the client for the response of \<^verbatim>\<open>dispatch\<close>: its status, headers
  and body, unless reading the body throws (the body was used already) or
  \<^verbatim>\<open>writeHead\<close> refuses the status code (outside 100..999); the \<^verbatim>\<open>catch\<close> clause
  then writes status 500.
\<close>

definition writeResponse :: "response \<Rightarrow> response" where
  "writeResponse r =
     (if bodyUsed r \<or> status r < 100 \<or> 999 < status r
      then errorJson ''Internal server error'' 500
      else r)"

definition requestListener ::
  "environment \<Rightarrow> requestUrl \<Rightarrow> incomingMessage \<Rightarrow> route list \<Rightarrow> serverContext \<Rightarrow> response \<times> event list"
where
  "requestListener env requestUrl req routes ctx =
     (if \<not> startsWith (pathname requestUrl) ''/api/''
      then (errorJson ''Not found'' 404, [])
      else (case dispatch env requestUrl req routes ctx of
              (r, events) \<Rightarrow> (writeResponse r, events)))"


subsection \<open>Notions of the specification about the dispatcher\<close>

text \<open>The member of a JSON object body under a key.\<close>

fun jsonField :: "string \<Rightarrow> body \<Rightarrow> jsonValue option" where
  "jsonField key (JsonText (JObject members)) = map_of members key"
| "jsonField key other = None"

text \<open>The browser-origin header names, in lower case.\<close>

definition strippedName :: "string \<Rightarrow> bool" where
  "strippedName n \<longleftrightarrow>
     n = ''host'' \<or> n = ''origin'' \<or> n = ''referer'' \<or> startsWith n ''sec-fetch-''"

fun valuesOf :: "headerValue \<Rightarrow> string list" where
  "valuesOf (Single v) = [v]"
| "valuesOf (Multiple vs) = vs"
| "valuesOf Missing = []"

text \<open>An incoming header that \<^verbatim>\<open>toHeaders\<close> drops, or that has no value, or whose
  name and values the \<^verbatim>\<open>Headers\<close> object accepts.\<close>

definition acceptable :: "string \<times> headerValue \<Rightarrow> bool" where
  "acceptable entry \<longleftrightarrow>
     strippedName (toLowerCase (fst entry)) \<or> valuesOf (snd entry) = [] \<or>
     (validName (fst entry) \<and>
      list_all (\<lambda>v. validValue (normalizeValue v)) (valuesOf (snd entry)))"

fun forwardedHeaders :: "event \<Rightarrow> headerList" where
  "forwardedHeaders (CloudFetch r) = fetchHeaders r"
| "forwardedHeaders (HandlerCall modPath r) = fetchHeaders r"

text \<open>The values stored under a name that is already in lower case.\<close>

definition vals :: "headerList \<Rightarrow> string \<Rightarrow> string list" where
  "vals hdrs n = map snd (filter (\<lambda>h. fst h = n) hdrs)"

subsection \<open>A small installation, for the examples\<close>

definition exampleContext :: serverContext where
  "exampleContext =
     \<lparr>port = 46123, remoteBase = ''https://worldmonitor.app'', resourceDir = ''/srv'',
      apiDir = ''/srv/api'', mode = ''desktop-sidecar''\<rparr>"

definition exampleRoutes :: "route list" where
  "exampleRoutes = [\<lparr>routePath = ''weather'', modulePath = ''/srv/api/weather.js''\<rparr>]"

text \<open>A table with a route whose module file is gone.\<close>

definition staleRoutes :: "route list" where
  "staleRoutes = [\<lparr>routePath = ''news'', modulePath = ''/srv/api/news.js''\<rparr>]"

definition exampleUrl :: "string \<Rightarrow> requestUrl" where
  "exampleUrl p = \<lparr>pathname = p, search = ''?q=1'', href = ''http://127.0.0.1:46123'' @ p @ ''?q=1''\<rparr>"

definition exampleHeaders :: "(string \<times> headerValue) list" where
  "exampleHeaders =
     [(''host'', Single ''127.0.0.1:46123''),
      (''origin'', Single ''tauri://localhost''),
      (''accept'', Single ''application/json''),
      (''sec-fetch-mode'', Single ''cors''),
      (''x-tags'', Multiple [''a'', ''b''])]"

text \<open>What \<^verbatim>\<open>toHeaders\<close> makes of them with \<^verbatim>\<open>stripOrigin\<close> true.\<close>

definition exampleForwarded :: headerList where
  "exampleForwarded =
     [(''accept'', ''application/json''), (''x-tags'', ''a''), (''x-tags'', ''b'')]"

text \<open>Headers as Node joins a repeated header whose second value is empty: the value ends
  in a space.\<close>

definition joinedHeaders :: "(string \<times> headerValue) list" where
  "joinedHeaders = [(''x-tags'', Single ''a, '')]"

definition exampleRequest :: incomingMessage where
  "exampleRequest = \<lparr>httpMethod = ''GET'', headers = exampleHeaders\<rparr>"

definition cloudAnswer :: response where
  "cloudAnswer = \<lparr>status = 200, resHeaders = [], resBody = Bytes ''cloud'', bodyUsed = False\<rparr>"

definition localFailure :: response where
  "localFailure = \<lparr>status = 503, resHeaders = [], resBody = Bytes ''no key'', bodyUsed = False\<rparr>"

text \<open>An environment in which only \<^verbatim>\<open>/srv/api/weather.js\<close> exists, with the given
  default export, and in which the cloud answers as given.\<close>

definition exampleEnv :: "defaultExport \<Rightarrow> exn + response \<Rightarrow> environment" where
  "exampleEnv export cloud =
     \<lparr>existsSync = (\<lambda>p. p = ''/srv/api/weather.js''),
      importHandler = (\<lambda>p. Inr export),
      readBody = (\<lambda>n. Inr None),
      requestError = (\<lambda>r. None),
      fetch = (\<lambda>r. cloud),
      basename = (\<lambda>p. ''weather.js''),
      isoNow = ''2026-01-01T00:00:00.000Z''\<rparr>"


section \<open>The runtime fetch patch (runtime module of the web application)\<close>

subsection \<open>Detection of the desktop runtime\<close>

record RuntimeProbe =
  hasTauriGlobals :: bool
  userAgent :: string
  locationProtocol :: string
  locationHost :: string
  locationOrigin :: string

text \<open>\<^verbatim>\<open>String.prototype.includes\<close>\<close>

definition stringIncludes :: "string \<Rightarrow> string \<Rightarrow> bool" where
  "stringIncludes s part = sublist part s"

definition detectDesktopRuntime :: "RuntimeProbe \<Rightarrow> bool" where
  "detectDesktopRuntime probe =
     (let tauriInUserAgent = stringIncludes (userAgent probe) ''Tauri'';
          secureLocalhostOrigin =
            (locationProtocol probe = ''https:'' \<and>
             (locationHost probe = ''localhost'' \<or>
              startsWith (locationHost probe) ''localhost:'' \<or>
              locationHost probe = ''127.0.0.1'' \<or>
              startsWith (locationHost probe) ''127.0.0.1:''));
          tauriLikeLocation =
            (locationProtocol probe = ''tauri:'' \<or>
             locationProtocol probe = ''asset:'' \<or>
             locationHost probe = ''tauri.localhost'' \<or>
             endsWith (locationHost probe) ''.tauri.localhost'' \<or>
             startsWith (locationOrigin probe) ''tauri://'' \<or>
             secureLocalhostOrigin)
      in hasTauriGlobals probe \<or> tauriInUserAgent \<or> tauriLikeLocation)"

text \<open>The build-time variables of \<^verbatim>\<open>import.meta.env\<close> that the module reads; \<open>None\<close>
  is an unset variable.\<close>

record viteEnv =
  VITE_DESKTOP_RUNTIME :: "string option"
  VITE_TAURI_API_BASE_URL :: "string option"
  VITE_TAURI_REMOTE_API_BASE_URL :: "string option"
  VITE_VARIANT :: "string option"

text \<open>What stands behind \<^verbatim>\<open>window.fetch\<close>: the function found there at first, or the
  patch around the function found before, with the two base addresses it closes over.\<close>

datatype fetchImpl = OriginalFetch | PatchedFetch fetchImpl string string

text \<open>
  The parts of \<^verbatim>\<open>window\<close> that the module reads and writes. The user agent is
  \<open>None\<close> where \<^verbatim>\<open>window.navigator\<close> is missing, the three location fields where
  \<^verbatim>\<open>window.location\<close> is. A window that is not defined at all is \<open>None\<close> of type
  \<open>browserWindow option\<close>.
\<close>

record browserWindow =
  tauriInternals :: bool
  tauriGlobal :: bool
  navigatorUserAgent :: "string option"
  windowProtocol :: "string option"
  windowHost :: "string option"
  windowOrigin :: "string option"
  windowFetch :: fetchImpl
  wmFetchPatched :: bool

text \<open>\<^verbatim>\<open>value ?? ''\<close>\<close>

definition orEmpty :: "string option \<Rightarrow> string" where
  "orEmpty v = (case v of None \<Rightarrow> [] | Some s \<Rightarrow> s)"

definition FORCE_DESKTOP_RUNTIME :: "viteEnv \<Rightarrow> bool" where
  "FORCE_DESKTOP_RUNTIME venv \<longleftrightarrow> VITE_DESKTOP_RUNTIME venv = Some ''1''"

definition isDesktopRuntime :: "viteEnv \<Rightarrow> browserWindow option \<Rightarrow> bool" where
  "isDesktopRuntime venv window =
     (if FORCE_DESKTOP_RUNTIME venv then True
      else (case window of
              None \<Rightarrow> False
            | Some w \<Rightarrow>
                detectDesktopRuntime
                  \<lparr>hasTauriGlobals = (tauriInternals w \<or> tauriGlobal w),
                   userAgent = orEmpty (navigatorUserAgent w),
                   locationProtocol = orEmpty (windowProtocol w),
                   locationHost = orEmpty (windowHost w),
                   locationOrigin = orEmpty (windowOrigin w)\<rparr>))"

definition DEFAULT_LOCAL_API_BASE :: string where
  "DEFAULT_LOCAL_API_BASE = ''http://127.0.0.1:46123''"

definition DEFAULT_REMOTE_HOSTS :: "(string \<times> string) list" where
  "DEFAULT_REMOTE_HOSTS =
     [(''tech'', ''https://tech.worldmonitor.app''),
      (''full'', ''https://worldmonitor.app''),
      (''world'', ''https://worldmonitor.app'')]"

definition normalizeBaseUrl :: "string \<Rightarrow> string" where
  "normalizeBaseUrl baseUrl = removeAtEnd ''/'' baseUrl"

text \<open>A configured string counts when it is set and not empty.\<close>

definition getApiBaseUrl :: "viteEnv \<Rightarrow> browserWindow option \<Rightarrow> string" where
  "getApiBaseUrl venv window =
     (if \<not> isDesktopRuntime venv window then []
      else (case VITE_TAURI_API_BASE_URL venv of
              Some configuredBaseUrl \<Rightarrow>
                (if configuredBaseUrl \<noteq> [] then normalizeBaseUrl configuredBaseUrl
                 else DEFAULT_LOCAL_API_BASE)
            | None \<Rightarrow> DEFAULT_LOCAL_API_BASE))"

text \<open>
  \<^verbatim>\<open>DEFAULT_REMOTE_HOSTS[variant]\<close> reads a plain object, so a variant that is not a key
  of the table still finds the members that every object inherits
  (\<^verbatim>\<open>constructor\<close>, \<^verbatim>\<open>toString\<close>, ...), and none of them is null or undefined. The
  members belong to the JavaScript runtime: \<open>inherited name\<close> is the text that a template
  string makes of the inherited member of that name, \<open>None\<close> where there is no such member.
  The base address is used inside a template string only, so this text stands for the
  member.
\<close>

definition remoteHostOf :: "(string \<Rightarrow> string option) \<Rightarrow> string \<Rightarrow> string" where
  "remoteHostOf inherited variant =
     (case map_of DEFAULT_REMOTE_HOSTS variant of
        Some host \<Rightarrow> host
      | None \<Rightarrow>
          (case inherited variant of
             Some member \<Rightarrow> member
           | None \<Rightarrow> (case map_of DEFAULT_REMOTE_HOSTS ''world'' of
                        Some host \<Rightarrow> host
                      | None \<Rightarrow> ''https://worldmonitor.app'')))"

definition getRemoteApiBaseUrl :: "(string \<Rightarrow> string option) \<Rightarrow> viteEnv \<Rightarrow> string" where
  "getRemoteApiBaseUrl inherited venv =
     (case VITE_TAURI_REMOTE_API_BASE_URL venv of
        Some configuredRemoteBase \<Rightarrow>
          (if configuredRemoteBase \<noteq> [] then normalizeBaseUrl configuredRemoteBase
           else remoteHostOf inherited (if orEmpty (VITE_VARIANT venv) = [] then ''world''
                                        else orEmpty (VITE_VARIANT venv)))
      | None \<Rightarrow> remoteHostOf inherited (if orEmpty (VITE_VARIANT venv) = [] then ''world''
                                         else orEmpty (VITE_VARIANT venv)))"

subsection \<open>installRuntimeFetchPatch\<close>

definition installRuntimeFetchPatch ::
  "(string \<Rightarrow> string option) \<Rightarrow> viteEnv \<Rightarrow> browserWindow option \<Rightarrow> browserWindow option"
where
  "installRuntimeFetchPatch inherited venv window =
     (case window of
        None \<Rightarrow> window
      | Some w \<Rightarrow>
          (if \<not> isDesktopRuntime venv window \<or> wmFetchPatched w then window
           else Some (w\<lparr>windowFetch :=
                          PatchedFetch (windowFetch w) (getApiBaseUrl venv window)
                            (getRemoteApiBaseUrl inherited venv),
                        wmFetchPatched := True\<rparr>)))"

subsection \<open>The patched fetch\<close>

record parsedUrl =
  urlPathname :: string
  urlSearch :: string

text \<open>The first argument of \<^verbatim>\<open>fetch\<close>: a string, a \<^verbatim>\<open>URL\<close>, or a
  \<^verbatim>\<open>Request\<close> with its \<^verbatim>\<open>url\<close>.\<close>

datatype fetchInput = StringInput string | UrlInput parsedUrl | RequestInput string

text \<open>
  The browser around one call of the patched fetch. \<open>nativeFetch k\<close> is the outcome of the
  call of the captured \<^verbatim>\<open>nativeFetch\<close> that is made after \<open>k\<close> earlier ones;
  \<open>aborted k\<close> is \<^verbatim>\<open>init?.signal?.aborted\<close> as read after that call has failed;
  \<open>parseUrl\<close> is \<^verbatim>\<open>new URL\<close>, \<open>None\<close> where it throws. The type \<open>'i\<close> is the one of
  \<^verbatim>\<open>init\<close>; waiting between attempts is not modelled.
\<close>

record 'i browser =
  nativeFetch :: "nat \<Rightarrow> fetchInput \<Rightarrow> 'i option \<Rightarrow> exn + response"
  aborted :: "nat \<Rightarrow> 'i option \<Rightarrow> bool"
  parseUrl :: "string \<Rightarrow> parsedUrl option"

definition getApiTargetFromRequestInput :: "'i browser \<Rightarrow> fetchInput \<Rightarrow> string option" where
  "getApiTargetFromRequestInput B input =
     (case input of
        StringInput s \<Rightarrow>
          (if startsWith s ''/'' then Some s
           else (case parseUrl B s of
                   Some u \<Rightarrow> Some (urlPathname u @ urlSearch u)
                 | None \<Rightarrow> None))
      | UrlInput u \<Rightarrow> Some (urlPathname u @ urlSearch u)
      | RequestInput requestUrl \<Rightarrow>
          (case parseUrl B requestUrl of
             Some u \<Rightarrow> Some (urlPathname u @ urlSearch u)
           | None \<Rightarrow> None))"

text \<open>The \<^verbatim>\<open>throw\<close> after the loop: the last error when it is an \<^verbatim>\<open>Error\<close>,
  otherwise a new one.\<close>

definition afterRetries :: "exn option \<Rightarrow> exn" where
  "afterRetries lastError =
     (case lastError of
        Some (Thrown m) \<Rightarrow> Thrown m
      | Some (ThrownValue v) \<Rightarrow> Thrown ''Local API unavailable''
      | None \<Rightarrow> Thrown ''Local API unavailable'')"

text \<open>
  The loop of \<^verbatim>\<open>fetchLocalWithStartupRetry\<close> from attempt \<open>attempt\<close> on (with
  \<^verbatim>\<open>maxAttempts\<close> 4), with the outcome and the number of calls of
  \<^verbatim>\<open>nativeFetch\<close> made by then; before attempt \<open>attempt\<close>, \<open>attempt - 1\<close> calls were made.
\<close>

function retryLoop ::
  "'i browser \<Rightarrow> string \<Rightarrow> 'i option \<Rightarrow> nat \<Rightarrow> exn option \<Rightarrow> (exn + response) \<times> nat"
where
  "retryLoop B localUrl init attempt lastError =
     (if attempt \<le> 4 then
        (case nativeFetch B (attempt - 1) (StringInput localUrl) init of
           Inr r \<Rightarrow> (Inr r, attempt)
         | Inl error \<Rightarrow>
             (if aborted B (attempt - 1) init then (Inl error, attempt)
              else if attempt = 4 then (Inl (afterRetries (Some error)), attempt)
              else retryLoop B localUrl init (attempt + 1) (Some error)))
      else (Inl (afterRetries lastError), attempt - 1))"
  by pat_completeness auto
termination
  by (relation "measure (\<lambda>(B, localUrl, init, attempt, lastError). 5 - attempt)") auto

declare retryLoop.simps [simp del]

definition fetchLocalWithStartupRetry :: "'i browser \<Rightarrow> string \<Rightarrow> 'i option \<Rightarrow> (exn + response) \<times> nat" where
  "fetchLocalWithStartupRetry B localUrl init = retryLoop B localUrl init 1 None"

text \<open>The function that the patch stores in \<^verbatim>\<open>window.fetch\<close>: its outcome, and the
  calls of \<^verbatim>\<open>nativeFetch\<close> it makes, in order, each with its two arguments.\<close>

definition patchedFetch ::
  "'i browser \<Rightarrow> string \<Rightarrow> string \<Rightarrow> fetchInput \<Rightarrow> 'i option
     \<Rightarrow> (exn + response) \<times> (fetchInput \<times> 'i option) list"
where
  "patchedFetch B localBase remoteBaseUrl input init =
     (case getApiTargetFromRequestInput B input of
        None \<Rightarrow> (nativeFetch B 0 input init, [(input, init)])
      | Some target \<Rightarrow>
          (if \<not> startsWith target ''/api/'' then (nativeFetch B 0 input init, [(input, init)])
           else
             (let localUrl = localBase @ target;
                  remoteUrl = remoteBaseUrl @ target
              in case fetchLocalWithStartupRetry B localUrl init of
                   (Inr localResponse, n) \<Rightarrow>
                     (if ok localResponse
                      then (Inr localResponse, replicate n (StringInput localUrl, init))
                      else
                        ((case nativeFetch B n (StringInput remoteUrl) init of
                            Inr remoteResponse \<Rightarrow>
                              (if ok remoteResponse then Inr remoteResponse else Inr localResponse)
                          | Inl remoteError \<Rightarrow> Inr localResponse),
                         replicate n (StringInput localUrl, init) @ [(StringInput remoteUrl, init)]))
                 | (Inl error, n) \<Rightarrow>
                     (nativeFetch B n (StringInput remoteUrl) init,
                      replicate n (StringInput localUrl, init) @ [(StringInput remoteUrl, init)]))))"

text \<open>The resolved target of a request starts with \<^verbatim>\<open>/api/\<close>.\<close>

definition isApiTarget :: "'i browser \<Rightarrow> fetchInput \<Rightarrow> bool" where
  "isApiTarget B input \<longleftrightarrow>
     (case getApiTargetFromRequestInput B input of
        None \<Rightarrow> False
      | Some target \<Rightarrow> startsWith target ''/api/'')"

text \<open>A desktop window for the examples, a browser whose local sidecar is down once and
  then answers, and the inherited members of an object as far as the examples need them.\<close>

definition exampleInherited :: "string \<Rightarrow> string option" where
  "exampleInherited name = (if name = ''toString'' then Some ''function toString() { [native code] }''
                            else None)"

definition exampleVite :: viteEnv where
  "exampleVite =
     \<lparr>VITE_DESKTOP_RUNTIME = None, VITE_TAURI_API_BASE_URL = None,
      VITE_TAURI_REMOTE_API_BASE_URL = None, VITE_VARIANT = Some ''tech''\<rparr>"

definition exampleWindow :: browserWindow where
  "exampleWindow =
     \<lparr>tauriInternals = True, tauriGlobal = False, navigatorUserAgent = Some ''Mozilla/5.0'',
      windowProtocol = Some ''http:'', windowHost = Some ''example.org'',
      windowOrigin = Some ''http://example.org'', windowFetch = OriginalFetch,
      wmFetchPatched = False\<rparr>"

definition exampleBrowser :: "unit browser" where
  "exampleBrowser =
     \<lparr>nativeFetch = (\<lambda>k input init. if k = 0 then Inl (Thrown ''ECONNREFUSED'') else Inr cloudAnswer),
      aborted = (\<lambda>k init. False),
      parseUrl = (\<lambda>s. if s = ''https://example.org/feed.xml''
                       then Some \<lparr>urlPathname = ''/feed.xml'', urlSearch = []\<rparr> else None)\<rparr>"


section \<open>Evaluation of the string tests\<close>

lemma startsWith_Nil [simp]: "startsWith s []"
  by (simp add: startsWith_def)

lemma startsWith_Cons_Nil [simp]: "\<not> startsWith [] (c # p)"
  by (simp add: startsWith_def)

lemma startsWith_Cons_Cons [simp]: "startsWith (x # s) (c # p) \<longleftrightarrow> x = c \<and> startsWith s p"
  by (auto simp: startsWith_def)

lemma endsWith_rev: "endsWith s p \<longleftrightarrow> startsWith (rev s) (rev p)"
  by (simp add: endsWith_def startsWith_def suffix_to_prefix)

section \<open>The loop of matchRoute against the segment lists\<close>

lemma afterLoop_drop:
  assumes "i \<le> length rs" "j \<le> length ps" "\<not> (i < length rs \<and> j < length ps)"
  shows "afterLoop rs ps i j = segments_align_code (drop i rs) (drop j ps)"
proof (cases "i = length rs")
  case True
  with assms show ?thesis by (auto simp: afterLoop_def)
next
  case False
  with assms have i: "i < length rs" and j: "j = length ps" by auto
  from i have d: "drop i rs = rs ! i # drop (Suc i) rs"
    by (simp add: Cons_nth_drop_Suc)
  have last: "int i = int (length rs) - 1 \<longleftrightarrow> drop (Suc i) rs = []"
    using i by auto
  show ?thesis
    using i j last by (simp add: afterLoop_def d)
qed

lemma matchLoop_drop:
  "i \<le> length rs \<Longrightarrow> j \<le> length ps \<Longrightarrow>
   (case matchLoop rs ps i j of Inl b \<Rightarrow> b | Inr (i', j') \<Rightarrow> afterLoop rs ps i' j')
     = segments_align_code (drop i rs) (drop j ps)"
proof (induction rs ps i j rule: matchLoop.induct)
  case (1 rs ps i j)
  show ?case
  proof (cases "i < length rs \<and> j < length ps")
    case False
    then have "matchLoop rs ps i j = Inr (i, j)"
      by (simp add: matchLoop.simps)
    with afterLoop_drop [OF "1.prems" False] show ?thesis by simp
  next
    case True
    then have di: "drop i rs = rs ! i # drop (Suc i) rs"
      and dj: "drop j ps = ps ! j # drop (Suc j) ps"
      by (simp_all add: Cons_nth_drop_Suc)
    from True have le: "i + 1 \<le> length rs" "j + 1 \<le> length ps" by auto
    consider (opt) "isOptionalCatchAll (rs ! i)"
      | (catch) "\<not> isOptionalCatchAll (rs ! i)" "isCatchAll (rs ! i)"
      | (dyn) "\<not> isOptionalCatchAll (rs ! i)" "\<not> isCatchAll (rs ! i)" "isBracketSegment (rs ! i)"
      | (lit) "\<not> isOptionalCatchAll (rs ! i)" "\<not> isCatchAll (rs ! i)"
              "\<not> isBracketSegment (rs ! i)"
      by blast
    then show ?thesis
    proof cases
      case opt
      with True show ?thesis
        by (subst matchLoop.simps) (simp add: di dj)
    next
      case catch
      with True show ?thesis
        by (subst matchLoop.simps) (simp add: di dj)
    next
      case dyn
      with True "1.IH"(1) le show ?thesis
        by (subst matchLoop.simps) (simp add: di dj)
    next
      case lit
      show ?thesis
      proof (cases "rs ! i = ps ! j")
        case False
        with True lit show ?thesis
          by (subst matchLoop.simps) (simp add: di dj)
      next
        case same: True
        with True lit "1.IH"(2) le show ?thesis
          by (subst matchLoop.simps) (simp add: di dj)
      qed
    qed
  qed
qed

lemma matchParts_align: "matchParts rs ps = segments_align_code rs ps"
  using matchLoop_drop [of 0 rs 0 ps] by (simp add: matchParts_def)

text \<open>Where an optional catch-all occurs as the last segment only, the code agrees with the
  convention as worded; where no catch-all of either kind occurs before the last segment, it
  agrees with the stricter reading too.\<close>

lemma segments_align_code_last:
  "(\<forall>k < length rs. isOptionalCatchAll (rs ! k) \<longrightarrow> Suc k = length rs) \<Longrightarrow>
   segments_align_code rs ps = segments_align rs ps"
proof (induction rs arbitrary: ps)
  case Nil
  show ?case by simp
next
  case (Cons r rs)
  from Cons.prems have tail: "\<forall>k < length rs. isOptionalCatchAll (rs ! k) \<longrightarrow> Suc k = length rs"
    by fastforce
  from Cons.prems have "isOptionalCatchAll r \<Longrightarrow> rs = []"
    by fastforce
  with Cons.IH [OF tail] show ?case
    by (cases ps) auto
qed

lemma segments_align_code_strict:
  "(\<forall>k < length rs. isOptionalCatchAll (rs ! k) \<or> isCatchAll (rs ! k) \<longrightarrow> Suc k = length rs) \<Longrightarrow>
   segments_align_code rs ps = segments_align_strict rs ps"
proof (induction rs arbitrary: ps)
  case Nil
  show ?case by simp
next
  case (Cons r rs)
  from Cons.prems
  have tail: "\<forall>k < length rs. isOptionalCatchAll (rs ! k) \<or> isCatchAll (rs ! k) \<longrightarrow> Suc k = length rs"
    by fastforce
  from Cons.prems have "isOptionalCatchAll r \<or> isCatchAll r \<Longrightarrow> rs = []"
    by fastforce
  with Cons.IH [OF tail] show ?case
    by (cases ps) auto
qed

section \<open>The walk, the sort and the scan of the table\<close>

lemma filesUnder_nonempty: "names \<in> set (filesUnder entries) \<Longrightarrow> names \<noteq> []"
  by (induction entries arbitrary: names rule: filesUnder.induct) auto

lemma isRouteFile_Cons: "names \<noteq> [] \<Longrightarrow> isRouteFile (name # names) = isRouteFile names"
  by (simp add: isRouteFile_def)

lemma routeOf_Cons: "routeOf P root dir (name # names) = routeOf P root (join P dir name) names"
  by (simp add: routeOf_def absoluteOf_def)

lemma filter_map_Cons:
  "filter isRouteFile (map ((#) name) (filesUnder sub))
     = map ((#) name) (filter isRouteFile (filesUnder sub))"
  by (induction "filesUnder sub" arbitrary: sub)
     (auto simp: filter_map o_def isRouteFile_Cons filesUnder_nonempty intro!: filter_cong)

lemma replaceBackslashes_slashesForward: "replaceBackslashes s = slashesForward s"
  by (induction s) (simp_all add: replaceBackslashes_def)

lemma removeAtEnd_withoutTrailing: "removeAtEnd ending s = withoutTrailing ending s"
  by (simp add: removeAtEnd_def withoutTrailing_def endsWith_def rev_drop)

lemma toRoutePath_routePathOf: "toRoutePath P root absolute = routePathOf (relative P root absolute)"
  by (simp add: toRoutePath_def routePathOf_def replaceBackslashes_slashesForward
      removeAtEnd_withoutTrailing)

lemma walk_collects:
  "walk P root dir entries files
     = files @ map (routeOf P root dir) (filter isRouteFile (filesUnder entries))"
proof (induction P root dir entries files rule: walk.induct)
  case (1 P root dir files)
  show ?case by simp
next
  case (2 P root dir name sub entries files)
  have "map (routeOf P root dir) (filter isRouteFile (map ((#) name) (filesUnder sub)))
        = map (routeOf P root (join P dir name)) (filter isRouteFile (filesUnder sub))"
    by (simp add: filter_map_Cons o_def routeOf_Cons)
  with 2 show ?case by simp
next
  case (3 P root dir name entries files)
  then show ?case
    by (simp add: isRouteFile_def routeOf_def absoluteOf_def toRoutePath_routePathOf)
qed

lemma routeOf_routePath:
  "routePath (routeOf P root dir names) = routePathOf (relative P root (modulePath (routeOf P root dir names)))"
  by (simp add: routeOf_def)

lemma mset_insertBy: "mset (insertBy cmp x ys) = add_mset x (mset ys)"
  by (induction ys) auto

lemma mset_sortJS: "mset (sortJS cmp xs) = mset xs"
  by (induction xs) (auto simp: sortJS_def mset_insertBy)

lemma set_insertBy: "set (insertBy cmp x ys) = insert x (set ys)"
  by (induction ys) auto

lemma sorted_insertBy:
  "sorted_wrt (\<lambda>a b. routePriority (routePath a) \<ge> routePriority (routePath b)) ys \<Longrightarrow>
   sorted_wrt (\<lambda>a b. routePriority (routePath a) \<ge> routePriority (routePath b))
     (insertBy byPriority x ys)"
  by (induction ys) (auto simp: set_insertBy byPriority_def)

lemma sorted_sortJS: "nonIncreasingPriority (sortJS byPriority xs)"
  by (induction xs) (auto simp: sortJS_def nonIncreasingPriority_def sorted_insertBy)

lemma routePriority_foldl:
  "foldl (\<lambda>score part.
              if isOptionalCatchAll part then score + 0
              else if isCatchAll part then score + 1
              else if isBracketSegment part then score + 2
              else score + 10) a parts = a + sum_list (map segmentScore parts)"
  by (induction parts arbitrary: a) (auto simp: segmentScore_def)

lemma pickLoop_find:
  "pickLoop apiPath routes
     = map_option modulePath (find (\<lambda>c. matchRoute (routePath c) apiPath) routes)"
  by (induction routes) auto

lemma find_highest:
  "sorted_wrt (\<lambda>a b. p a \<ge> (p b :: int)) xs \<Longrightarrow> r \<in> set xs \<Longrightarrow> Q r \<Longrightarrow>
   \<forall>x \<in> set xs. x \<noteq> r \<and> Q x \<longrightarrow> p x < p r \<Longrightarrow> find Q xs = Some r"
proof (induction xs)
  case Nil
  then show ?case by simp
next
  case (Cons x xs)
  show ?case
  proof (cases "x = r")
    case True
    with Cons.prems show ?thesis by simp
  next
    case False
    with Cons.prems have r: "r \<in> set xs" by simp
    with Cons.prems have "p x \<ge> p r" by auto
    with False Cons.prems have "\<not> Q x" by force
    moreover from Cons.prems r have "find Q xs = Some r"
      by (intro Cons.IH) auto
    ultimately show ?thesis by simp
  qed
qed


lemmas segment_tests = isOptionalCatchAll_def isCatchAll_def isBracketSegment_def endsWith_rev

lemma nestedApiTable:
  "buildRouteTable posixPath ''/srv/api'' (Some nestedApiTree)
     = [\<lparr>routePath = ''api/x'', modulePath = ''/srv/api/api/x.js''\<rparr>,
        \<lparr>routePath = ''x'', modulePath = ''/srv/api/x.js''\<rparr>]"
  by (simp add: buildRouteTable_def nestedApiTree_def posixPath_def toRoutePath_def
      removeAtEnd_def replaceBackslashes_def sortJS_def byPriority_def routePriority_def
      splitRoutePath_def segment_tests)

lemma apikeysTable:
  "buildRouteTable posixPath ''/srv/api'' (Some apikeysTree)
     = [\<lparr>routePath = ''apikeys'', modulePath = ''/srv/api/apikeys.js''\<rparr>]"
  by (simp add: buildRouteTable_def apikeysTree_def posixPath_def toRoutePath_def
      removeAtEnd_def replaceBackslashes_def sortJS_def endsWith_rev)

lemma routePriority_sum:
  "routePriority rpath = sum_list (map segmentScore (splitRoutePath rpath))"
  by (simp add: routePriority_def routePriority_foldl)

lemma buildRouteTable_sorted: "nonIncreasingPriority (buildRouteTable P root fs)"
  by (cases fs) (simp_all add: buildRouteTable_def sorted_sortJS, simp add: nonIncreasingPriority_def)

text \<open>The scan of \<^verbatim>\<open>pickModule\<close> in terms of the path it hands to
  \<^verbatim>\<open>matchRoute\<close>: on the sorted table, a route that matches that path with a priority
  strictly above every other route that matches it is the one selected.\<close>

lemma pickModule_first_on_apiPath:
  "pickModule pname routes
     = map_option modulePath (find (\<lambda>c. matchRoute (routePath c) (apiPathOf pname)) routes)"
  by (simp add: pickModule_def pickLoop_find)

lemma pickModule_highest_on_apiPath:
  assumes "r \<in> set (buildRouteTable P root fs)" "matchRoute (routePath r) (apiPathOf pname)"
    and "\<forall>r' \<in> set (buildRouteTable P root fs).
        r' \<noteq> r \<and> matchRoute (routePath r') (apiPathOf pname)
        \<longrightarrow> routePriority (routePath r') < routePriority (routePath r)"
  shows "pickModule pname (buildRouteTable P root fs) = Some (modulePath r)"
proof -
  have "nonIncreasingPriority (buildRouteTable P root fs)"
    by (cases fs) (simp_all add: buildRouteTable_def sorted_sortJS, simp add: nonIncreasingPriority_def)
  with assms
  have "find (\<lambda>c. matchRoute (routePath c) (apiPathOf pname)) (buildRouteTable P root fs) = Some r"
    unfolding nonIncreasingPriority_def by (intro find_highest)
  then show ?thesis by (simp add: pickModule_first_on_apiPath)
qed

section \<open>The branches of dispatch\<close>

lemma dispatch_to_tryBlock:
  assumes "pathname u \<noteq> ''/api/service-status''" "pathname u \<noteq> ''/api/local-status''"
    and "pickModule (pathname u) routes = Some m" "m \<noteq> []" "existsSync env m"
  shows "dispatch env u rq routes cx = tryBlock env u rq cx m"
  using assms by (simp add: dispatch_def)

lemma dispatch_to_handlerMissing:
  assumes "pathname u \<noteq> ''/api/service-status''" "pathname u \<noteq> ''/api/local-status''"
    and "pickModule (pathname u) routes = None
         \<or> (\<exists>m. pickModule (pathname u) routes = Some m \<and> \<not> existsSync env m)"
  shows "dispatch env u rq routes cx = handlerMissing env u rq cx"
  using assms by (auto simp: dispatch_def)

lemma example_pick:
  "pickModule ''/api/weather'' exampleRoutes = Some ''/srv/api/weather.js''"
  "pickModule ''/api/news'' exampleRoutes = None"
  "pickModule ''/api/news'' staleRoutes = Some ''/srv/api/news.js''"
  by (simp_all add: pickModule_def apiPathOf_def exampleRoutes_def staleRoutes_def matchRoute_def
      matchParts_align requestSegments_def stripApiPrefix_def splitRoutePath_def segment_tests)

lemma example_url [simp]:
  "pathname (exampleUrl p) = p" "search (exampleUrl p) = ''?q=1''"
  by (simp_all add: exampleUrl_def)

lemma example_env [simp]:
  "existsSync (exampleEnv x c) p \<longleftrightarrow> p = ''/srv/api/weather.js''"
  "importHandler (exampleEnv x c) p = Inr x"
  "readBody (exampleEnv x c) n = Inr None"
  "requestError (exampleEnv x c) r = None"
  "fetch (exampleEnv x c) r = c"
  by (simp_all add: exampleEnv_def)

lemma example_withoutBody [simp]: "withoutBody exampleRequest"
  by (simp add: withoutBody_def exampleRequest_def)

lemma example_toHeaders: "toHeaders exampleHeaders True = Inr exampleForwarded"
  by code_simp

lemma example_request [simp]:
  "headers exampleRequest = exampleHeaders" "httpMethod exampleRequest = ''GET''"
  by (simp_all add: exampleRequest_def)

section \<open>The headers that are handed on\<close>

lemma names_setFirst: "set (map fst (setFirst n v hdrs)) \<subseteq> set (map fst hdrs)"
  by (induction hdrs) (auto simp: image_iff split: if_splits, force+)

lemma names_headersSet:
  "headersSet hdrs k v = Inr hs \<Longrightarrow>
   set (map fst hs) \<subseteq> insert (toLowerCase k) (set (map fst hdrs))"
  using names_setFirst [of "toLowerCase k" "normalizeValue v" hdrs]
  by (auto simp: headersSet_def split: if_splits)

lemma names_appendAll:
  "appendAll hdrs k vs = Inr hs \<Longrightarrow>
   set (map fst hs) \<subseteq> insert (toLowerCase k) (set (map fst hdrs))"
proof (induction vs arbitrary: hdrs)
  case Nil
  then show ?case by auto
next
  case (Cons v vs)
  from Cons.prems obtain h where h: "headersAppend hdrs k v = Inr h" "appendAll h k vs = Inr hs"
    by (auto split: sum.splits)
  from h(1) have "set (map fst h) \<subseteq> insert (toLowerCase k) (set (map fst hdrs))"
    by (auto simp: headersAppend_def split: if_splits)
  with Cons.IH [OF h(2)] show ?case by auto
qed

lemma toHeadersEntry_stripped:
  "strippedName (toLowerCase (fst e)) \<Longrightarrow> toHeadersEntry True hdrs e = Inr hdrs"
  by (auto simp: toHeadersEntry_def Let_def strippedName_def)

lemma toHeadersEntry_kept:
  "\<not> strippedName (toLowerCase (fst e)) \<Longrightarrow>
   toHeadersEntry True hdrs e =
     (case snd e of
        Multiple vs \<Rightarrow> appendAll hdrs (fst e) vs
      | Single v \<Rightarrow> headersSet hdrs (fst e) v
      | Missing \<Rightarrow> Inr hdrs)"
  by (simp add: toHeadersEntry_def Let_def strippedName_def)

lemma names_toHeadersEntry:
  assumes "toHeadersEntry True hdrs e = Inr hs" "n \<in> set (map fst hs)"
  shows "n \<in> set (map fst hdrs) \<or> (n = toLowerCase (fst e) \<and> \<not> strippedName n)"
proof (cases "strippedName (toLowerCase (fst e))")
  case True
  with assms show ?thesis by (simp add: toHeadersEntry_stripped)
next
  case False
  have "set (map fst hs) \<subseteq> insert (toLowerCase (fst e)) (set (map fst hdrs))"
    using assms(1) names_headersSet [of hdrs "fst e" _ hs] names_appendAll [of hdrs "fst e" _ hs]
    by (cases "snd e") (auto simp: toHeadersEntry_kept [OF False])
  with assms False show ?thesis by blast
qed

lemma names_toHeadersLoop:
  "toHeadersLoop True hdrs es = Inr hs \<Longrightarrow> n \<in> set (map fst hs) \<Longrightarrow>
   n \<in> set (map fst hdrs) \<or> \<not> strippedName n"
proof (induction es arbitrary: hdrs)
  case Nil
  then show ?case by simp
next
  case (Cons e es)
  from Cons.prems(1) obtain h where h: "toHeadersEntry True hdrs e = Inr h"
      "toHeadersLoop True h es = Inr hs"
    by (auto split: sum.splits)
  from Cons.IH [OF h(2) Cons.prems(2)]
  have "n \<in> set (map fst h) \<or> \<not> strippedName n" .
  then show ?case using names_toHeadersEntry [OF h(1), of n] by blast
qed

lemma toHeaders_no_stripped:
  "toHeaders nh True = Inr hs \<Longrightarrow> strippedName (toLowerCase name) \<Longrightarrow> \<not> headersHas hs name"
  using names_toHeadersLoop [of "[]" nh hs "toLowerCase name"]
  by (auto simp: headersHas_def toHeaders_def)

lemma vals_setFirst:
  "vals (setFirst n v hdrs) m
     = (if m = n then (if n \<in> set (map fst hdrs) then [v] else []) else vals hdrs m)"
proof (induction hdrs)
  case Nil
  show ?case by (simp add: vals_def)
next
  case (Cons h hdrs)
  obtain k w where h: "h = (k, w)" by (cases h)
  have "filter (\<lambda>x. fst x = n) (filter (\<lambda>x. fst x \<noteq> n) hdrs) = []"
    by (induction hdrs) auto
  moreover have "m \<noteq> n \<Longrightarrow> filter (\<lambda>x. fst x = m) (filter (\<lambda>x. fst x \<noteq> n) hdrs)
      = filter (\<lambda>x. fst x = m) hdrs"
    by (induction hdrs) auto
  ultimately show ?case using Cons by (auto simp: vals_def h image_iff; force)
qed

lemma vals_absent: "n \<notin> set (map fst hdrs) \<Longrightarrow> vals hdrs n = []"
  by (induction hdrs) (auto simp: vals_def)

lemma vals_headersSet:
  assumes "headersSet hdrs k v = Inr hs"
  shows "vals hs m = (if m = toLowerCase k then [normalizeValue v] else vals hdrs m)"
proof (cases "toLowerCase k \<in> set (map fst hdrs)")
  case True
  with assms have "hs = setFirst (toLowerCase k) (normalizeValue v) hdrs"
    by (auto simp: headersSet_def split: if_splits)
  with True show ?thesis by (simp add: vals_setFirst)
next
  case False
  with assms have "hs = hdrs @ [(toLowerCase k, normalizeValue v)]"
    by (auto simp: headersSet_def split: if_splits)
  with vals_absent [OF False] show ?thesis by (auto simp: vals_def)
qed

lemma vals_appendAll:
  "appendAll hdrs k vs = Inr hs \<Longrightarrow>
   vals hs m = vals hdrs m @ (if m = toLowerCase k then map normalizeValue vs else [])"
proof (induction vs arbitrary: hdrs)
  case Nil
  then show ?case by auto
next
  case (Cons v vs)
  from Cons.prems obtain h where h: "headersAppend hdrs k v = Inr h" "appendAll h k vs = Inr hs"
    by (auto split: sum.splits)
  from h(1) have "vals h m = vals hdrs m @ (if m = toLowerCase k then [normalizeValue v] else [])"
    by (auto simp: headersAppend_def vals_def split: if_splits)
  with Cons.IH [OF h(2)] show ?case by simp
qed

lemma vals_toHeadersEntry:
  assumes "toHeadersEntry True hdrs (k, v) = Inr hs"
  shows "vals hs m
     = (if m = toLowerCase k \<and> \<not> strippedName (toLowerCase k)
        then (case v of Single s \<Rightarrow> [normalizeValue s]
                      | Multiple vs \<Rightarrow> vals hdrs m @ map normalizeValue vs
                      | Missing \<Rightarrow> vals hdrs m)
        else vals hdrs m)"
proof (cases "strippedName (toLowerCase k)")
  case True
  with assms show ?thesis by (simp add: toHeadersEntry_stripped)
next
  case False
  then have "\<not> strippedName (toLowerCase (fst (k, v)))" by simp
  from assms toHeadersEntry_kept [OF this, of hdrs] False show ?thesis
    by (cases v) (simp_all add: vals_headersSet vals_appendAll)
qed

lemma vals_toHeadersLoop_other:
  "m \<notin> set (map (\<lambda>e. toLowerCase (fst e)) es) \<Longrightarrow> toHeadersLoop True hdrs es = Inr hs \<Longrightarrow>
   vals hs m = vals hdrs m"
proof (induction es arbitrary: hdrs)
  case Nil
  then show ?case by simp
next
  case (Cons e es)
  obtain k v where e: "e = (k, v)" by (cases e)
  from Cons.prems(2) obtain h where h: "toHeadersEntry True hdrs (k, v) = Inr h"
      "toHeadersLoop True h es = Inr hs"
    by (auto simp: e split: sum.splits)
  from Cons.prems(1) have "m \<noteq> toLowerCase k" "m \<notin> set (map (\<lambda>e. toLowerCase (fst e)) es)"
    by (simp_all add: e)
  with Cons.IH [OF _ h(2)] vals_toHeadersEntry [OF h(1), of m] show ?case by simp
qed

lemma vals_toHeadersLoop_kept:
  "distinct (map (\<lambda>e. toLowerCase (fst e)) es) \<Longrightarrow> (k, v) \<in> set es \<Longrightarrow>
   \<not> strippedName (toLowerCase k) \<Longrightarrow> vals hdrs (toLowerCase k) = [] \<Longrightarrow>
   toHeadersLoop True hdrs es = Inr hs \<Longrightarrow>
   vals hs (toLowerCase k) = map normalizeValue (valuesOf v)"
proof (induction es arbitrary: hdrs)
  case Nil
  then show ?case by simp
next
  case (Cons e es)
  obtain k' v' where e: "e = (k', v')" by (cases e)
  from Cons.prems(5) obtain h where h: "toHeadersEntry True hdrs (k', v') = Inr h"
      "toHeadersLoop True h es = Inr hs"
    by (auto simp: e split: sum.splits)
  show ?case
  proof (cases "e = (k, v)")
    case True
    with Cons.prems have "toLowerCase k \<notin> set (map (\<lambda>e. toLowerCase (fst e)) es)" by auto
    from vals_toHeadersLoop_other [OF this h(2)]
    have "vals hs (toLowerCase k) = vals h (toLowerCase k)" .
    with True e Cons.prems(3,4) vals_toHeadersEntry [OF h(1), of "toLowerCase k"] show ?thesis
      by (cases v) simp_all
  next
    case False
    with Cons.prems have mem: "(k, v) \<in> set es" by auto
    with Cons.prems have "toLowerCase k' \<noteq> toLowerCase k" by (force simp: e)
    with Cons.prems(4) vals_toHeadersEntry [OF h(1), of "toLowerCase k"]
    have "vals h (toLowerCase k) = []" by auto
    with Cons.IH [OF _ mem Cons.prems(3) _ h(2)] Cons.prems(1) show ?thesis by simp
  qed
qed

lemma toHeaders_preserves:
  "distinct (map (\<lambda>e. toLowerCase (fst e)) nh) \<Longrightarrow> (k, v) \<in> set nh \<Longrightarrow>
   \<not> strippedName (toLowerCase k) \<Longrightarrow> toHeaders nh True = Inr hs \<Longrightarrow>
   headersValues hs k = map normalizeValue (valuesOf v)"
  using vals_toHeadersLoop_kept [of nh k v "[]" hs]
  by (simp add: toHeaders_def headersValues_def vals_def)

text \<open>When \<^verbatim>\<open>toHeaders\<close> returns.\<close>

lemma appendAll_returns:
  "(\<exists>hs. appendAll hdrs k vs = Inr hs)
   \<longleftrightarrow> vs = [] \<or> (validName k \<and> list_all (\<lambda>v. validValue (normalizeValue v)) vs)"
proof (induction vs arbitrary: hdrs)
  case Nil
  show ?case by simp
next
  case (Cons v vs)
  show ?case
  proof (cases "validName k \<and> validValue (normalizeValue v)")
    case True
    then have "headersAppend hdrs k v = Inr (hdrs @ [(toLowerCase k, normalizeValue v)])"
      by (simp add: headersAppend_def)
    with Cons [of "hdrs @ [(toLowerCase k, normalizeValue v)]"] True show ?thesis by auto
  next
    case False
    then have "headersAppend hdrs k v = Inl (Thrown ''TypeError'')"
      by (auto simp: headersAppend_def)
    with False show ?thesis by auto
  qed
qed

lemma headersSet_returns:
  "(\<exists>hs. headersSet hdrs k v = Inr hs) \<longleftrightarrow> validName k \<and> validValue (normalizeValue v)"
  by (auto simp: headersSet_def)

lemma toHeadersEntry_returns:
  "(\<exists>hs. toHeadersEntry True hdrs e = Inr hs) \<longleftrightarrow> acceptable e"
proof (cases "strippedName (toLowerCase (fst e))")
  case True
  then show ?thesis by (simp add: toHeadersEntry_stripped acceptable_def)
next
  case False
  show ?thesis
    using appendAll_returns [of hdrs "fst e"] headersSet_returns [of hdrs "fst e"]
    by (cases "snd e") (simp_all add: toHeadersEntry_kept [OF False] acceptable_def False)
qed

lemma toHeadersLoop_returns:
  "(\<exists>hs. toHeadersLoop True hdrs es = Inr hs) \<longleftrightarrow> list_all acceptable es"
proof (induction es arbitrary: hdrs)
  case Nil
  show ?case by simp
next
  case (Cons e es)
  show ?case
  proof (cases "toHeadersEntry True hdrs e")
    case (Inl error)
    with toHeadersEntry_returns [of hdrs e] show ?thesis by simp
  next
    case (Inr h)
    with toHeadersEntry_returns [of hdrs e] Cons [of h] show ?thesis by auto
  qed
qed

lemma toHeaders_returns: "(\<exists>hs. toHeaders nh True = Inr hs) \<longleftrightarrow> list_all acceptable nh"
  by (simp add: toHeaders_def toHeadersLoop_returns)

text \<open>What \<^verbatim>\<open>dispatch\<close> hands on carries the headers that \<^verbatim>\<open>toHeaders\<close> returned.\<close>

lemma proxyToCloud_events:
  "\<forall>ev \<in> set (snd (proxyToCloud env u rq base n)).
     toHeaders (headers rq) True = Inr (forwardedHeaders ev)"
  by (auto simp: proxyToCloud_def Let_def split: sum.splits)

lemma tryCloudFallback_events:
  "\<forall>ev \<in> set (snd (tryCloudFallback env u rq cx n)).
     toHeaders (headers rq) True = Inr (forwardedHeaders ev)"
  using proxyToCloud_events [of env u rq "remoteBase cx" n]
  by (auto simp: tryCloudFallback_def split: prod.splits sum.splits)

lemma orElse_events:
  "(\<forall>ev \<in> set (snd (orElse before (tryCloudFallback env u rq cx n) other)).
      toHeaders (headers rq) True = Inr (forwardedHeaders ev))
   \<longleftrightarrow> (\<forall>ev \<in> set before. toHeaders (headers rq) True = Inr (forwardedHeaders ev))"
  using tryCloudFallback_events [of env u rq cx n]
  by (auto simp: orElse_def split: option.splits)

lemma catchClause_events:
  "(\<forall>ev \<in> set (snd (catchClause env u rq cx n before)).
      toHeaders (headers rq) True = Inr (forwardedHeaders ev))
   \<longleftrightarrow> (\<forall>ev \<in> set before. toHeaders (headers rq) True = Inr (forwardedHeaders ev))"
  by (simp only: catchClause_def orElse_events)

lemma handlerMissing_events:
  "\<forall>ev \<in> set (snd (handlerMissing env u rq cx)).
     toHeaders (headers rq) True = Inr (forwardedHeaders ev)"
  by (simp only: handlerMissing_def orElse_events) simp

lemma localRequest_headers: "fetchHeaders (localRequest u rq hs b) = hs"
  by (simp add: localRequest_def)

lemma tryBlock_events:
  "\<forall>ev \<in> set (snd (tryBlock env u rq cx m)).
     toHeaders (headers rq) True = Inr (forwardedHeaders ev)"
proof -
  define Q where "Q ev \<longleftrightarrow> toHeaders (headers rq) True = Inr (forwardedHeaders ev)" for ev
  have fall: "(\<forall>ev \<in> set (snd (orElse before (tryCloudFallback env u rq cx n) other)). Q ev)
      \<longleftrightarrow> (\<forall>ev \<in> set before. Q ev)" for before n other
    unfolding Q_def by (rule orElse_events)
  have catch: "(\<forall>ev \<in> set (snd (catchClause env u rq cx n before)). Q ev)
      \<longleftrightarrow> (\<forall>ev \<in> set before. Q ev)" for before n
    unfolding Q_def by (rule catchClause_events)
  have call: "Q (HandlerCall m (localRequest u rq hs b))"
    if "toHeaders (headers rq) True = Inr hs" for hs b
    using that by (simp add: Q_def localRequest_headers)
  have "\<forall>ev \<in> set (snd (tryBlock env u rq cx m)). Q ev"
    unfolding tryBlock_def Let_def
    by (simp add: fall catch call
        split: sum.split defaultExport.split option.split jsValue.split)
  then show ?thesis by (simp add: Q_def)
qed

lemma dispatch_events:
  "\<forall>ev \<in> set (snd (dispatch env u rq routes cx)).
     toHeaders (headers rq) True = Inr (forwardedHeaders ev)"
  unfolding dispatch_def
  by (simp add: handlerMissing_events tryBlock_events split: option.split)

lemma example_names:
  "map (\<lambda>e. toLowerCase (fst e)) exampleHeaders
     = [''host'', ''origin'', ''accept'', ''sec-fetch-mode'', ''x-tags'']"
  "toLowerCase ''Host'' = ''host''"
  "toLowerCase ''Origin'' = ''origin''"
  "toLowerCase ''Sec-Fetch-Mode'' = ''sec-fetch-mode''"
  "toLowerCase ''accept'' = ''accept''"
  "toLowerCase ''x-tags'' = ''x-tags''"
  by code_simp+

lemma example_normalized:
  "normalizeValue ''application/json'' = ''application/json''"
  "normalizeValue ''a'' = ''a''" "normalizeValue ''b'' = ''b''"
  by code_simp+

lemma example_acceptable: "list_all acceptable exampleHeaders"
  by code_simp

section \<open>The patched fetch and its installation\<close>

lemma retryLoop_calls:
  "attempt \<le> 4 \<Longrightarrow> attempt \<le> snd (retryLoop B localUrl init attempt lastError)"
proof (induction B localUrl init attempt lastError rule: retryLoop.induct)
  case (1 B localUrl init attempt lastError)
  show ?case
  proof (cases "nativeFetch B (attempt - 1) (StringInput localUrl) init")
    case (Inr r)
    with "1.prems" show ?thesis by (subst retryLoop.simps) simp
  next
    case (Inl error)
    show ?thesis
    proof (cases "aborted B (attempt - 1) init \<or> attempt = 4")
      case True
      with Inl "1.prems" show ?thesis by (subst retryLoop.simps) auto
    next
      case False
      with "1.prems" have "attempt + 1 \<le> 4" by simp
      with "1.IH" [OF "1.prems" Inl] False
      have "attempt + 1 \<le> snd (retryLoop B localUrl init (attempt + 1) (Some error))" by simp
      with Inl False "1.prems" show ?thesis by (subst retryLoop.simps) simp
    qed
  qed
qed

lemma fetchLocalWithStartupRetry_calls: "0 < snd (fetchLocalWithStartupRetry B localUrl init)"
  using retryLoop_calls [of 1 B localUrl init None] by (simp add: fetchLocalWithStartupRetry_def)

lemma patchedFetch_passes:
  "\<not> isApiTarget B input \<Longrightarrow>
   patchedFetch B lb rb input init = (nativeFetch B 0 input init, [(input, init)])"
  by (simp add: isApiTarget_def patchedFetch_def split: option.splits)

lemma patchedFetch_redirects:
  assumes "getApiTargetFromRequestInput B input = Some target" "startsWith target ''/api/''"
  shows "\<exists>n rest. 0 < n \<and>
           snd (patchedFetch B lb rb input init)
             = replicate n (StringInput (lb @ target), init) @ rest \<and>
           set rest \<subseteq> {(StringInput (rb @ target), init)}"
proof -
  obtain res n where r: "fetchLocalWithStartupRetry B (lb @ target) init = (res, n)"
    by (cases "fetchLocalWithStartupRetry B (lb @ target) init")
  with fetchLocalWithStartupRetry_calls [of B "lb @ target" init] have n: "0 < n" by simp
  have "snd (patchedFetch B lb rb input init)
          = replicate n (StringInput (lb @ target), init) @ []
        \<or> snd (patchedFetch B lb rb input init)
          = replicate n (StringInput (lb @ target), init) @ [(StringInput (rb @ target), init)]"
    using assms r by (cases res) (simp_all add: patchedFetch_def Let_def)
  then show ?thesis
  proof
    assume "snd (patchedFetch B lb rb input init)
          = replicate n (StringInput (lb @ target), init) @ []"
    with n have "0 < n \<and> snd (patchedFetch B lb rb input init)
          = replicate n (StringInput (lb @ target), init) @ [] \<and>
          set [] \<subseteq> {(StringInput (rb @ target), init)}"
      by simp
    then show ?thesis by (intro exI)
  next
    assume "snd (patchedFetch B lb rb input init)
          = replicate n (StringInput (lb @ target), init) @ [(StringInput (rb @ target), init)]"
    with n have "0 < n \<and> snd (patchedFetch B lb rb input init)
          = replicate n (StringInput (lb @ target), init) @ [(StringInput (rb @ target), init)] \<and>
          set [(StringInput (rb @ target), init)] \<subseteq> {(StringInput (rb @ target), init)}"
      by simp
    then show ?thesis by (intro exI)
  qed
qed

lemma install_changes:
  "installRuntimeFetchPatch inh venv window \<noteq> window \<Longrightarrow>
   isDesktopRuntime venv window \<and> (\<exists>w. window = Some w \<and> \<not> wmFetchPatched w)"
  by (auto simp: installRuntimeFetchPatch_def split: option.splits if_splits)

lemma install_patches:
  "isDesktopRuntime venv (Some w) \<Longrightarrow> \<not> wmFetchPatched w \<Longrightarrow>
   installRuntimeFetchPatch inh venv (Some w)
     = Some (w\<lparr>windowFetch := PatchedFetch (windowFetch w) (getApiBaseUrl venv (Some w))
                                (getRemoteApiBaseUrl inh venv),
               wmFetchPatched := True\<rparr>)"
  by (simp add: installRuntimeFetchPatch_def)

lemma example_desktop: "isDesktopRuntime exampleVite (Some exampleWindow)"
  by (simp add: isDesktopRuntime_def exampleVite_def exampleWindow_def FORCE_DESKTOP_RUNTIME_def
      detectDesktopRuntime_def)

lemma example_targets:
  "\<not> isApiTarget exampleBrowser (StringInput ''https://example.org/feed.xml'')"
  "\<not> isApiTarget exampleBrowser (StringInput ''/assets/logo.png'')"
  "getApiTargetFromRequestInput exampleBrowser (StringInput ''/api/weather'') = Some ''/api/weather''"
  by (simp_all add: isApiTarget_def getApiTargetFromRequestInput_def exampleBrowser_def)

lemma example_bases:
  "getApiBaseUrl exampleVite (Some exampleWindow) = ''http://127.0.0.1:46123''"
  "getRemoteApiBaseUrl exampleInherited exampleVite = ''https://tech.worldmonitor.app''"
proof -
  have "VITE_TAURI_API_BASE_URL exampleVite = None" by (simp add: exampleVite_def)
  then show "getApiBaseUrl exampleVite (Some exampleWindow) = ''http://127.0.0.1:46123''"
    by (simp add: getApiBaseUrl_def example_desktop DEFAULT_LOCAL_API_BASE_def)
  show "getRemoteApiBaseUrl exampleInherited exampleVite = ''https://tech.worldmonitor.app''"
    by (simp add: getRemoteApiBaseUrl_def exampleVite_def remoteHostOf_def
        DEFAULT_REMOTE_HOSTS_def orEmpty_def)
qed

lemma example_unpatched:
  "\<not> wmFetchPatched exampleWindow" "windowFetch exampleWindow = OriginalFetch"
  by (simp_all add: exampleWindow_def)

section \<open>Claim C1: the bracket-segment convention\<close>




section \<open>Claim C2: priority ordering\<close>

text \<open>
  C2: the table that \<^verbatim>\<open>buildRouteTable\<close> returns is sorted in non-increasing
  priority, the priority being the sum of the scores of the segments, and
  \<^verbatim>\<open>pickModule\<close> returns the module of the first route of the list that matches, so
  that a matching route whose priority is strictly greater than that of every other matching
  route is the one selected. The table is sorted and the priority is that sum
  (\<open>buildRouteTable_sorted\<close>, \<open>routePriority_sum\<close>), but the scan does not test the
  routes against the request: \<^verbatim>\<open>pickModule\<close> takes the leading \<^verbatim>\<open>/api\<close> off the
  pathname and \<^verbatim>\<open>matchRoute\<close> takes a leading \<^verbatim>\<open>/api\<close> off what it is given once
  more. For the request \<^verbatim>\<open>/api/apikeys\<close> the one route \<^verbatim>\<open>apikeys\<close> matches and no
  module is returned. For the request \<^verbatim>\<open>/api/api/x\<close> the route \<^verbatim>\<open>api/x\<close> is the only
  route of the table that matches, it has the greater priority (20 against 10), and the
  module returned is the one of route \<^verbatim>\<open>x\<close>, which does not match.
\<close>

theorem pickModule_strips_api_twice:
  "(buildRouteTable posixPath ''/srv/api'' (Some apikeysTree)
      = [\<lparr>routePath = ''apikeys'', modulePath = ''/srv/api/apikeys.js''\<rparr>] \<and>
    matchRoute ''apikeys'' ''/api/apikeys'' \<and>
    pickModule ''/api/apikeys'' (buildRouteTable posixPath ''/srv/api'' (Some apikeysTree)) = None) \<and>
   (buildRouteTable posixPath ''/srv/api'' (Some nestedApiTree)
      = [\<lparr>routePath = ''api/x'', modulePath = ''/srv/api/api/x.js''\<rparr>,
         \<lparr>routePath = ''x'', modulePath = ''/srv/api/x.js''\<rparr>] \<and>
    matchRoute ''api/x'' ''/api/api/x'' \<and> \<not> matchRoute ''x'' ''/api/api/x'' \<and>
    routePriority ''api/x'' = 20 \<and> routePriority ''x'' = 10 \<and>
    pickModule ''/api/api/x'' (buildRouteTable posixPath ''/srv/api'' (Some nestedApiTree))
      = Some ''/srv/api/x.js'')"
  by (simp add: nestedApiTable apikeysTable pickModule_def apiPathOf_def matchRoute_def
      matchParts_align requestSegments_def stripApiPrefix_def splitRoutePath_def routePriority_def
      segment_tests)

section \<open>Claim C3: fallback to the cloud on a failure status\<close>

text \<open>
  C3: when the handler of the matched module returns a \<^verbatim>\<open>Response\<close> whose status is
  not 2xx, \<^verbatim>\<open>dispatch\<close> attempts the cloud proxy; the response of the proxy is returned
  when the proxy call succeeds, and the failure response of the local handler is returned
  unchanged when the proxy call throws. The premises say that the request is not one of the
  two status endpoints, that its module exists and exports a function, and that the body
  was read and the headers and the request built without a throw, so that the handler is
  invoked.
\<close>

theorem dispatch_failure_status_fallback:
  assumes "pathname u \<noteq> ''/api/service-status''" "pathname u \<noteq> ''/api/local-status''"
    and "pickModule (pathname u) routes = Some m" "m \<noteq> []" "existsSync env m"
    and "importHandler env m = Inr (HandlerFunction h)"
    and "(if withoutBody rq then Inr None else readBody env 0) = Inr b"
    and "toHeaders (headers rq) True = Inr hs"
    and "requestError env (localRequest u rq hs b) = None"
    and "h (localRequest u rq hs b) = Inr (ResponseValue failure)"
    and "\<not> ok failure"
  shows "dispatch env u rq routes cx =
     (case proxyToCloud env u rq (remoteBase cx) (if withoutBody rq then 0 else 1) of
        (Inr cloud, events) \<Rightarrow> (cloud, HandlerCall m (localRequest u rq hs b) # events)
      | (Inl error, events) \<Rightarrow> (failure, HandlerCall m (localRequest u rq hs b) # events))"
proof -
  have "dispatch env u rq routes cx = tryBlock env u rq cx m"
    using assms(1-5) by (rule dispatch_to_tryBlock)
  also have "\<dots> = orElse [HandlerCall m (localRequest u rq hs b)]
      (tryCloudFallback env u rq cx (if withoutBody rq then 0 else 1)) failure"
    using assms(6-11) by (simp add: tryBlock_def Let_def)
  finally show ?thesis
    by (simp add: orElse_def tryCloudFallback_def split: prod.splits sum.splits)
qed

theorem dispatch_failure_status_fallback_witness:
  "fst (dispatch (exampleEnv (HandlerFunction (\<lambda>r. Inr (ResponseValue localFailure))) (Inr cloudAnswer))
         (exampleUrl ''/api/weather'') exampleRequest exampleRoutes exampleContext) = cloudAnswer \<and>
   fst (dispatch (exampleEnv (HandlerFunction (\<lambda>r. Inr (ResponseValue localFailure)))
                    (Inl (Thrown ''ECONNREFUSED'')))
         (exampleUrl ''/api/weather'') exampleRequest exampleRoutes exampleContext) = localFailure"
  using dispatch_failure_status_fallback
      [where u = "exampleUrl ''/api/weather''" and routes = exampleRoutes
         and m = "''/srv/api/weather.js''" and rq = exampleRequest and b = None
         and hs = exampleForwarded
         and env = "exampleEnv (HandlerFunction (\<lambda>r. Inr (ResponseValue localFailure))) (Inr cloudAnswer)"
         and h = "\<lambda>r. Inr (ResponseValue localFailure)" and failure = localFailure
         and cx = exampleContext]
    dispatch_failure_status_fallback
      [where u = "exampleUrl ''/api/weather''" and routes = exampleRoutes
         and m = "''/srv/api/weather.js''" and rq = exampleRequest and b = None
         and hs = exampleForwarded
         and env = "exampleEnv (HandlerFunction (\<lambda>r. Inr (ResponseValue localFailure)))
                      (Inl (Thrown ''ECONNREFUSED''))"
         and h = "\<lambda>r. Inr (ResponseValue localFailure)" and failure = localFailure
         and cx = exampleContext]
  by (simp add: example_pick example_toHeaders proxyToCloud_def ok_def localFailure_def)

section \<open>Claim C4: fallback to the cloud on a missing handler\<close>

text \<open>
  C4: for a request, other than the two status endpoints, for which \<^verbatim>\<open>pickModule\<close>
  finds no route or whose module file does not exist, \<^verbatim>\<open>dispatch\<close> proxies the request
  to the remote base (the target is the remote base followed by path and query); when that
  proxy attempt throws, the answer is the JSON error with status 502.
\<close>

theorem dispatch_missing_handler_fallback:
  assumes "pathname u \<noteq> ''/api/service-status''" "pathname u \<noteq> ''/api/local-status''"
    and "pickModule (pathname u) routes = None
         \<or> (\<exists>m. pickModule (pathname u) routes = Some m \<and> \<not> existsSync env m)"
  shows "dispatch env u rq routes cx =
     (case proxyToCloud env u rq (remoteBase cx) 0 of
        (Inr cloud, events) \<Rightarrow> (cloud, events)
      | (Inl error, events) \<Rightarrow>
          (errorJson ''Local handler missing and cloud fallback unavailable'' 502, events)) \<and>
     status (errorJson ''Local handler missing and cloud fallback unavailable'' 502) = 502 \<and>
     (\<forall>ev \<in> set (snd (proxyToCloud env u rq (remoteBase cx) 0)).
        \<exists>r. ev = CloudFetch r \<and> url r = remoteBase cx @ pathname u @ search u)"
proof -
  have "dispatch env u rq routes cx = handlerMissing env u rq cx"
    using assms by (rule dispatch_to_handlerMissing)
  then have "dispatch env u rq routes cx =
     (case proxyToCloud env u rq (remoteBase cx) 0 of
        (Inr cloud, events) \<Rightarrow> (cloud, events)
      | (Inl error, events) \<Rightarrow>
          (errorJson ''Local handler missing and cloud fallback unavailable'' 502, events))"
    by (simp add: handlerMissing_def orElse_def tryCloudFallback_def split: prod.splits sum.splits)
  moreover have "\<forall>ev \<in> set (snd (proxyToCloud env u rq (remoteBase cx) 0)).
        \<exists>r. ev = CloudFetch r \<and> url r = remoteBase cx @ pathname u @ search u"
    by (auto simp: proxyToCloud_def Let_def split: sum.splits)
  ultimately show ?thesis by (simp add: errorJson_def json_def)
qed

theorem dispatch_missing_handler_fallback_witness:
  "dispatch (exampleEnv NotAFunction (Inr cloudAnswer)) (exampleUrl ''/api/news'') exampleRequest
      exampleRoutes exampleContext
     = (cloudAnswer,
        [CloudFetch \<lparr>url = ''https://worldmonitor.app/api/news?q=1'', fetchMethod = ''GET'',
                     fetchHeaders = exampleForwarded, fetchBody = None\<rparr>]) \<and>
   fst (dispatch (exampleEnv NotAFunction (Inr cloudAnswer)) (exampleUrl ''/api/news'')
          exampleRequest staleRoutes exampleContext) = cloudAnswer \<and>
   status (fst (dispatch (exampleEnv NotAFunction (Inl (Thrown ''ECONNREFUSED'')))
                  (exampleUrl ''/api/news'') exampleRequest exampleRoutes exampleContext)) = 502"
  using dispatch_missing_handler_fallback
      [where u = "exampleUrl ''/api/news''" and routes = exampleRoutes and rq = exampleRequest
         and env = "exampleEnv NotAFunction (Inr cloudAnswer)" and cx = exampleContext]
    dispatch_missing_handler_fallback
      [where u = "exampleUrl ''/api/news''" and routes = staleRoutes and rq = exampleRequest
         and env = "exampleEnv NotAFunction (Inr cloudAnswer)" and cx = exampleContext]
    dispatch_missing_handler_fallback
      [where u = "exampleUrl ''/api/news''" and routes = exampleRoutes and rq = exampleRequest
         and env = "exampleEnv NotAFunction (Inl (Thrown ''ECONNREFUSED''))" and cx = exampleContext]
  by (simp add: example_pick example_toHeaders proxyToCloud_def exampleContext_def)

section \<open>Claim C5: fallback to the cloud on an invalid handler\<close>

text \<open>
  C5: when the default export of the matched module is not a function, when the handler
  returns a value that is not a \<^verbatim>\<open>Response\<close>, and when the handler throws,
  \<^verbatim>\<open>dispatch\<close> attempts the cloud proxy and returns its response when the proxy call
  succeeds; when the proxy call throws as well, the first two cases answer with a JSON error
  of status 500 and the third with a JSON error of status 502.
\<close>

theorem dispatch_invalid_handler_fallback:
  assumes "pathname u \<noteq> ''/api/service-status''" "pathname u \<noteq> ''/api/local-status''"
    and "pickModule (pathname u) routes = Some m" "m \<noteq> []" "existsSync env m"
  shows
    "(importHandler env m = Inr NotAFunction \<longrightarrow>
        dispatch env u rq routes cx =
          (case proxyToCloud env u rq (remoteBase cx) 0 of
             (Inr cloud, events) \<Rightarrow> (cloud, events)
           | (Inl error, events) \<Rightarrow>
               (errorJson (''Invalid handler module: '' @ basename env m) 500, events))) \<and>
     (\<forall>h b hs. importHandler env m = Inr (HandlerFunction h) \<and>
             (if withoutBody rq then Inr None else readBody env 0) = Inr b \<and>
             toHeaders (headers rq) True = Inr hs \<and>
             requestError env (localRequest u rq hs b) = None \<longrightarrow>
        (h (localRequest u rq hs b) = Inr OtherValue \<longrightarrow>
           dispatch env u rq routes cx =
             (case proxyToCloud env u rq (remoteBase cx) (if withoutBody rq then 0 else 1) of
                (Inr cloud, events) \<Rightarrow> (cloud, HandlerCall m (localRequest u rq hs b) # events)
              | (Inl error, events) \<Rightarrow>
                  (errorJson (''Handler returned invalid response for '' @ pathname u) 500,
                   HandlerCall m (localRequest u rq hs b) # events))) \<and>
        (\<forall>e. h (localRequest u rq hs b) = Inl e \<longrightarrow>
           dispatch env u rq routes cx =
             (case proxyToCloud env u rq (remoteBase cx) (if withoutBody rq then 0 else 1) of
                (Inr cloud, events) \<Rightarrow> (cloud, HandlerCall m (localRequest u rq hs b) # events)
              | (Inl error, events) \<Rightarrow>
                  (errorJson ''Local handler failed and cloud fallback unavailable'' 502,
                   HandlerCall m (localRequest u rq hs b) # events))))"
proof -
  have d: "dispatch env u rq routes cx = tryBlock env u rq cx m"
    using assms by (rule dispatch_to_tryBlock)
  have notfun: "tryBlock env u rq cx m =
          (case proxyToCloud env u rq (remoteBase cx) 0 of
             (Inr cloud, events) \<Rightarrow> (cloud, events)
           | (Inl error, events) \<Rightarrow>
               (errorJson (''Invalid handler module: '' @ basename env m) 500, events))"
    if "importHandler env m = Inr NotAFunction"
    using that
    by (simp add: tryBlock_def orElse_def tryCloudFallback_def split: prod.splits sum.splits)
  have other: "tryBlock env u rq cx m =
             (case proxyToCloud env u rq (remoteBase cx) (if withoutBody rq then 0 else 1) of
                (Inr cloud, events) \<Rightarrow> (cloud, HandlerCall m (localRequest u rq hs b) # events)
              | (Inl error, events) \<Rightarrow>
                  (errorJson (''Handler returned invalid response for '' @ pathname u) 500,
                   HandlerCall m (localRequest u rq hs b) # events))"
    if "importHandler env m = Inr (HandlerFunction h)"
      "(if withoutBody rq then Inr None else readBody env 0) = Inr b"
      "toHeaders (headers rq) True = Inr hs"
      "requestError env (localRequest u rq hs b) = None"
      "h (localRequest u rq hs b) = Inr OtherValue" for h b hs
    using that
    by (simp add: tryBlock_def Let_def orElse_def tryCloudFallback_def
        split: prod.splits sum.splits)
  have threw: "tryBlock env u rq cx m =
             (case proxyToCloud env u rq (remoteBase cx) (if withoutBody rq then 0 else 1) of
                (Inr cloud, events) \<Rightarrow> (cloud, HandlerCall m (localRequest u rq hs b) # events)
              | (Inl error, events) \<Rightarrow>
                  (errorJson ''Local handler failed and cloud fallback unavailable'' 502,
                   HandlerCall m (localRequest u rq hs b) # events))"
    if "importHandler env m = Inr (HandlerFunction h)"
      "(if withoutBody rq then Inr None else readBody env 0) = Inr b"
      "toHeaders (headers rq) True = Inr hs"
      "requestError env (localRequest u rq hs b) = None"
      "h (localRequest u rq hs b) = Inl e" for h b hs e
    using that
    by (simp add: tryBlock_def Let_def catchClause_def orElse_def tryCloudFallback_def
        split: prod.splits sum.splits)
  from notfun other threw show ?thesis
    unfolding d by blast
qed

theorem dispatch_invalid_handler_fallback_witness:
  "status (fst (dispatch (exampleEnv NotAFunction (Inl (Thrown ''ECONNREFUSED'')))
                  (exampleUrl ''/api/weather'') exampleRequest exampleRoutes exampleContext)) = 500 \<and>
   fst (dispatch (exampleEnv NotAFunction (Inr cloudAnswer))
                  (exampleUrl ''/api/weather'') exampleRequest exampleRoutes exampleContext)
     = cloudAnswer \<and>
   status (fst (dispatch (exampleEnv (HandlerFunction (\<lambda>r. Inr OtherValue))
                            (Inl (Thrown ''ECONNREFUSED'')))
                  (exampleUrl ''/api/weather'') exampleRequest exampleRoutes exampleContext)) = 500 \<and>
   status (fst (dispatch (exampleEnv (HandlerFunction (\<lambda>r. Inl (Thrown ''boom'')))
                            (Inl (Thrown ''ECONNREFUSED'')))
                  (exampleUrl ''/api/weather'') exampleRequest exampleRoutes exampleContext)) = 502"
  using dispatch_invalid_handler_fallback
      [where u = "exampleUrl ''/api/weather''" and routes = exampleRoutes
         and m = "''/srv/api/weather.js''" and rq = exampleRequest and cx = exampleContext
         and env = "exampleEnv NotAFunction (Inl (Thrown ''ECONNREFUSED''))"]
    dispatch_invalid_handler_fallback
      [where u = "exampleUrl ''/api/weather''" and routes = exampleRoutes
         and m = "''/srv/api/weather.js''" and rq = exampleRequest and cx = exampleContext
         and env = "exampleEnv NotAFunction (Inr cloudAnswer)"]
    dispatch_invalid_handler_fallback
      [where u = "exampleUrl ''/api/weather''" and routes = exampleRoutes
         and m = "''/srv/api/weather.js''" and rq = exampleRequest and cx = exampleContext
         and env = "exampleEnv (HandlerFunction (\<lambda>r. Inr OtherValue)) (Inl (Thrown ''ECONNREFUSED''))"]
    dispatch_invalid_handler_fallback
      [where u = "exampleUrl ''/api/weather''" and routes = exampleRoutes
         and m = "''/srv/api/weather.js''" and rq = exampleRequest and cx = exampleContext
         and env = "exampleEnv (HandlerFunction (\<lambda>r. Inl (Thrown ''boom'')))
                      (Inl (Thrown ''ECONNREFUSED''))"]
  by (simp add: example_pick example_toHeaders proxyToCloud_def errorJson_def json_def)

section \<open>Claim C6: the file convention of the route table\<close>

text \<open>
  C6: \<^verbatim>\<open>buildRouteTable(root)\<close> returns the empty list when the root does not exist,
  and otherwise holds exactly one entry per file under the root (recursively) whose name ends
  in \<^verbatim>\<open>.js\<close> and does not start with an underscore; the \<^verbatim>\<open>routePath\<close> of an entry
  is the root-relative path of its file with backslashes replaced by slashes, a trailing
  \<^verbatim>\<open>.js\<close> removed and then a trailing \<^verbatim>\<open>/index\<close> removed. The entries are compared
  as multisets with the files that \<^const>\<open>filesUnder\<close> lists and \<^const>\<open>isRouteFile\<close>
  keeps, and the route path with \<^const>\<open>routePathOf\<close>, which is written from the sentence
  and not from the walk.
\<close>

theorem buildRouteTable_file_convention:
  "buildRouteTable P root None = [] \<and>
   mset (buildRouteTable P root (Some entries))
     = mset (map (routeOf P root root) (filter isRouteFile (filesUnder entries))) \<and>
   (\<forall>e \<in> set (buildRouteTable P root (Some entries)).
      routePath e = routePathOf (relative P root (modulePath e)))"
proof -
  have m: "mset (buildRouteTable P root (Some entries))
     = mset (map (routeOf P root root) (filter isRouteFile (filesUnder entries)))"
    by (simp add: buildRouteTable_def mset_sortJS walk_collects)
  have "routePath e = routePathOf (relative P root (modulePath e))"
    if "e \<in> set (buildRouteTable P root (Some entries))" for e
  proof -
    from that have "e \<in># mset (buildRouteTable P root (Some entries))" by simp
    then have "e \<in> set (map (routeOf P root root) (filter isRouteFile (filesUnder entries)))"
      unfolding m by simp
    then obtain names where "e = routeOf P root root names" by auto
    then show ?thesis by (simp add: routeOf_routePath)
  qed
  with m show ?thesis by (simp add: buildRouteTable_def)
qed

theorem buildRouteTable_file_convention_witness:
  "mset (buildRouteTable win32Path ''api'' (Some exampleTree))
     = {#\<lparr>routePath = ''[[...all]]'', modulePath = ''api'' @ backslash # ''[[...all]].js''\<rparr>,
         \<lparr>routePath = ''data/[id]'',
          modulePath = ''api'' @ backslash # ''data'' @ backslash # ''[id].js''\<rparr>,
         \<lparr>routePath = ''data'',
          modulePath = ''api'' @ backslash # ''data'' @ backslash # ''index.js''\<rparr>,
         \<lparr>routePath = ''weather'', modulePath = ''api'' @ backslash # ''weather.js''\<rparr>#}"
  using buildRouteTable_file_convention [of win32Path "''api''" exampleTree]
  by (simp add: exampleTree_def win32Path_def backslash_def routeOf_def absoluteOf_def
      isRouteFile_def routePathOf_def withoutTrailing_def suffix_to_prefix endsWith_rev)

section \<open>Claim C8: the fetch patch is for the desktop shell\<close>

text \<open>
  C8: \<^verbatim>\<open>installRuntimeFetchPatch\<close> changes the window, and with it \<^verbatim>\<open>window.fetch\<close>,
  only when \<^verbatim>\<open>isDesktopRuntime()\<close> holds, the window is defined and the patch is not
  installed yet (and then it does install the patch); \<^verbatim>\<open>isDesktopRuntime()\<close> holds when
  the build sets \<^verbatim>\<open>VITE_DESKTOP_RUNTIME\<close> to 1 or \<^verbatim>\<open>detectDesktopRuntime\<close> accepts
  the probe of the window; the patched fetch hands every request
  whose resolved target does not start with \<^verbatim>\<open>/api/\<close> to the native fetch, once, with
  input and init unchanged; for a target that starts with \<^verbatim>\<open>/api/\<close> it calls the local
  base first, and any later call goes to the remote base.
\<close>

theorem fetch_patch_desktop_only:
  "(installRuntimeFetchPatch inh venv window \<noteq> window \<longrightarrow>
      isDesktopRuntime venv window \<and> (\<exists>w. window = Some w \<and> \<not> wmFetchPatched w)) \<and>
   (isDesktopRuntime venv window \<longleftrightarrow>
      FORCE_DESKTOP_RUNTIME venv \<or>
      (\<exists>w. window = Some w \<and>
           detectDesktopRuntime
             \<lparr>hasTauriGlobals = (tauriInternals w \<or> tauriGlobal w),
              userAgent = orEmpty (navigatorUserAgent w),
              locationProtocol = orEmpty (windowProtocol w),
              locationHost = orEmpty (windowHost w),
              locationOrigin = orEmpty (windowOrigin w)\<rparr>)) \<and>
   (\<forall>w. isDesktopRuntime venv (Some w) \<and> \<not> wmFetchPatched w \<longrightarrow>
      installRuntimeFetchPatch inh venv (Some w)
        = Some (w\<lparr>windowFetch := PatchedFetch (windowFetch w) (getApiBaseUrl venv (Some w))
                                   (getRemoteApiBaseUrl inh venv),
                  wmFetchPatched := True\<rparr>)) \<and>
   (\<not> isApiTarget B input \<longrightarrow>
      patchedFetch B lb rb input init = (nativeFetch B 0 input init, [(input, init)])) \<and>
   (\<forall>target. getApiTargetFromRequestInput B input = Some target \<and> startsWith target ''/api/'' \<longrightarrow>
      (\<exists>n rest. 0 < n \<and>
         snd (patchedFetch B lb rb input init)
           = replicate n (StringInput (lb @ target), init) @ rest \<and>
         set rest \<subseteq> {(StringInput (rb @ target), init)}))"
proof (intro conjI allI impI)
  assume "installRuntimeFetchPatch inh venv window \<noteq> window"
  then show "isDesktopRuntime venv window" "\<exists>w. window = Some w \<and> \<not> wmFetchPatched w"
    using install_changes [of inh venv window] by simp_all
next
  show "isDesktopRuntime venv window \<longleftrightarrow>
      FORCE_DESKTOP_RUNTIME venv \<or>
      (\<exists>w. window = Some w \<and>
           detectDesktopRuntime
             \<lparr>hasTauriGlobals = (tauriInternals w \<or> tauriGlobal w),
              userAgent = orEmpty (navigatorUserAgent w),
              locationProtocol = orEmpty (windowProtocol w),
              locationHost = orEmpty (windowHost w),
              locationOrigin = orEmpty (windowOrigin w)\<rparr>)"
    by (cases window) (simp_all add: isDesktopRuntime_def)
next
  fix w
  assume "isDesktopRuntime venv (Some w) \<and> \<not> wmFetchPatched w"
  then show "installRuntimeFetchPatch inh venv (Some w)
        = Some (w\<lparr>windowFetch := PatchedFetch (windowFetch w) (getApiBaseUrl venv (Some w))
                                   (getRemoteApiBaseUrl inh venv),
                  wmFetchPatched := True\<rparr>)"
    by (simp add: install_patches)
next
  assume "\<not> isApiTarget B input"
  then show "patchedFetch B lb rb input init = (nativeFetch B 0 input init, [(input, init)])"
    by (rule patchedFetch_passes)
next
  fix target
  assume "getApiTargetFromRequestInput B input = Some target \<and> startsWith target ''/api/''"
  then show "\<exists>n rest. 0 < n \<and>
         snd (patchedFetch B lb rb input init)
           = replicate n (StringInput (lb @ target), init) @ rest \<and>
         set rest \<subseteq> {(StringInput (rb @ target), init)}"
    using patchedFetch_redirects [of B input target lb rb init] by simp
qed

theorem fetch_patch_desktop_only_witness:
  "map_option windowFetch (installRuntimeFetchPatch exampleInherited exampleVite (Some exampleWindow))
     = Some (PatchedFetch OriginalFetch ''http://127.0.0.1:46123'' ''https://tech.worldmonitor.app'') \<and>
   patchedFetch exampleBrowser ''http://127.0.0.1:46123'' ''https://tech.worldmonitor.app''
       (StringInput ''https://example.org/feed.xml'') (Some ())
     = (Inl (Thrown ''ECONNREFUSED''), [(StringInput ''https://example.org/feed.xml'', Some ())]) \<and>
   hd (snd (patchedFetch exampleBrowser ''http://127.0.0.1:46123'' ''https://tech.worldmonitor.app''
       (StringInput ''/api/weather'') (Some ())))
     = (StringInput ''http://127.0.0.1:46123/api/weather'', Some ())"
proof -
  note inst = fetch_patch_desktop_only [of exampleInherited exampleVite "Some exampleWindow" exampleBrowser
      "StringInput ''https://example.org/feed.xml''" "''http://127.0.0.1:46123''"
      "''https://tech.worldmonitor.app''" "Some ()"]
  note inst2 = fetch_patch_desktop_only [of exampleInherited exampleVite "Some exampleWindow" exampleBrowser
      "StringInput ''/api/weather''" "''http://127.0.0.1:46123''"
      "''https://tech.worldmonitor.app''" "Some ()"]
  from inst have "isDesktopRuntime exampleVite (Some exampleWindow) \<and> \<not> wmFetchPatched exampleWindow \<longrightarrow>
      installRuntimeFetchPatch exampleInherited exampleVite (Some exampleWindow)
        = Some (exampleWindow\<lparr>windowFetch := PatchedFetch (windowFetch exampleWindow)
                   (getApiBaseUrl exampleVite (Some exampleWindow)) (getRemoteApiBaseUrl exampleInherited exampleVite),
                  wmFetchPatched := True\<rparr>)"
    by blast
  with example_desktop example_unpatched example_bases
  have a: "map_option windowFetch (installRuntimeFetchPatch exampleInherited exampleVite (Some exampleWindow))
     = Some (PatchedFetch OriginalFetch ''http://127.0.0.1:46123'' ''https://tech.worldmonitor.app'')"
    by simp
  from inst example_targets(1)
  have "patchedFetch exampleBrowser ''http://127.0.0.1:46123'' ''https://tech.worldmonitor.app''
       (StringInput ''https://example.org/feed.xml'') (Some ())
     = (nativeFetch exampleBrowser 0 (StringInput ''https://example.org/feed.xml'') (Some ()),
        [(StringInput ''https://example.org/feed.xml'', Some ())])"
    by blast
  then have b: "patchedFetch exampleBrowser ''http://127.0.0.1:46123'' ''https://tech.worldmonitor.app''
       (StringInput ''https://example.org/feed.xml'') (Some ())
     = (Inl (Thrown ''ECONNREFUSED''), [(StringInput ''https://example.org/feed.xml'', Some ())])"
    by (simp add: exampleBrowser_def)
  have "startsWith ''/api/weather'' ''/api/''" by simp
  with inst2 example_targets(3)
  have "\<exists>n rest. 0 < n \<and>
    snd (patchedFetch exampleBrowser ''http://127.0.0.1:46123'' ''https://tech.worldmonitor.app''
       (StringInput ''/api/weather'') (Some ()))
     = replicate n (StringInput (''http://127.0.0.1:46123'' @ ''/api/weather''), Some ()) @ rest \<and>
    set rest \<subseteq> {(StringInput (''https://tech.worldmonitor.app'' @ ''/api/weather''), Some ())}"
    by blast
  then obtain n rest where "0 < n"
    "snd (patchedFetch exampleBrowser ''http://127.0.0.1:46123'' ''https://tech.worldmonitor.app''
       (StringInput ''/api/weather'') (Some ()))
     = replicate n (StringInput (''http://127.0.0.1:46123'' @ ''/api/weather''), Some ()) @ rest"
    by blast
  then have c: "hd (snd (patchedFetch exampleBrowser ''http://127.0.0.1:46123''
       ''https://tech.worldmonitor.app'' (StringInput ''/api/weather'') (Some ())))
     = (StringInput ''http://127.0.0.1:46123/api/weather'', Some ())"
    by (cases n) simp_all
  from a b c show ?thesis by blast
qed

section \<open>Claim C9: paths outside the API and the built-in endpoints\<close>

text \<open>
  C9: a request whose pathname does not start with \<^verbatim>\<open>/api/\<close> receives the 404 JSON
  response, whatever the route table and the environment are, and nothing is handed on;
  \<^verbatim>\<open>/api/service-status\<close> and \<^verbatim>\<open>/api/local-status\<close> are answered locally with
  status 200 and a JSON body whose member \<^verbatim>\<open>success\<close> is true, with no handler called
  and no request made to the cloud (of the route table only its length is reported).
\<close>

theorem requestListener_short_circuits:
  "(\<not> startsWith (pathname u) ''/api/'' \<longrightarrow>
      requestListener env u rq routes cx = (errorJson ''Not found'' 404, []) \<and>
      status (errorJson ''Not found'' 404) = 404) \<and>
   (pathname u = ''/api/service-status'' \<longrightarrow>
      requestListener env u rq routes cx = (handleLocalServiceStatus (isoNow env) cx, []) \<and>
      status (handleLocalServiceStatus (isoNow env) cx) = 200 \<and>
      jsonField ''success'' (resBody (handleLocalServiceStatus (isoNow env) cx)) = Some (JBool True)) \<and>
   (pathname u = ''/api/local-status'' \<longrightarrow>
      requestListener env u rq routes cx = (localStatus cx routes, []) \<and>
      status (localStatus cx routes) = 200 \<and>
      jsonField ''success'' (resBody (localStatus cx routes)) = Some (JBool True))"
  by (simp add: requestListener_def dispatch_def writeResponse_def handleLocalServiceStatus_def
      localStatus_def errorJson_def json_def)

theorem requestListener_short_circuits_witness:
  "requestListener (exampleEnv NotAFunction (Inr cloudAnswer)) (exampleUrl ''/index.html'')
      exampleRequest exampleRoutes exampleContext = (errorJson ''Not found'' 404, []) \<and>
   snd (requestListener (exampleEnv NotAFunction (Inr cloudAnswer)) (exampleUrl ''/api/service-status'')
      exampleRequest exampleRoutes exampleContext) = [] \<and>
   requestListener (exampleEnv NotAFunction (Inr cloudAnswer)) (exampleUrl ''/api/local-status'')
      exampleRequest exampleRoutes exampleContext = (localStatus exampleContext exampleRoutes, [])"
  using requestListener_short_circuits
      [of "exampleUrl ''/index.html''" "exampleEnv NotAFunction (Inr cloudAnswer)" exampleRequest
        exampleRoutes exampleContext]
    requestListener_short_circuits
      [of "exampleUrl ''/api/service-status''" "exampleEnv NotAFunction (Inr cloudAnswer)"
        exampleRequest exampleRoutes exampleContext]
    requestListener_short_circuits
      [of "exampleUrl ''/api/local-status''" "exampleEnv NotAFunction (Inr cloudAnswer)"
        exampleRequest exampleRoutes exampleContext]
  by simp

section \<open>Claim C10: no browser-origin header is forwarded\<close>

text \<open>
  C10, as the specification states it: the headers built by \<^verbatim>\<open>toHeaders\<close> with
  \<^verbatim>\<open>stripOrigin\<close> true hold no browser-origin header, while all other incoming headers
  are preserved. The \<^verbatim>\<open>Headers\<close> object does not keep a value as it comes: it takes
  leading and trailing whitespace off. Node joins a repeated header with a comma and a
  space, so a header sent once with the value \<^verbatim>\<open>a\<close> and once with no value arrives as
  the value \<^verbatim>\<open>a\<close>, comma, space, and is handed on without the space.
\<close>

theorem toHeaders_trims_value_counterexample:
  "toHeaders [(''x-tags'', Single ''a, '')] True = Inr [(''x-tags'', ''a,'')] \<and>
   headersValues [(''x-tags'', ''a,'')] ''x-tags'' \<noteq> valuesOf (Single ''a, '')"
  by code_simp

text \<open>
  C10, amended: whenever \<^verbatim>\<open>toHeaders\<close> with \<^verbatim>\<open>stripOrigin\<close> true returns, the headers
  it returns hold no \<^verbatim>\<open>host\<close>, \<^verbatim>\<open>origin\<close> or \<^verbatim>\<open>referer\<close> header and no header whose
  name in lower case starts with \<^verbatim>\<open>sec-fetch-\<close>, and every other incoming header is kept
  under its name with its values, each without its leading and trailing HTTP whitespace (the
  names of the incoming headers being distinct without regard to case, as the keys of
  \<^verbatim>\<open>req.headers\<close> are); it returns exactly when every incoming header that is not dropped
  and has a value has a name and values that the \<^verbatim>\<open>Headers\<close> object accepts, and throws
  otherwise; and every request that \<^verbatim>\<open>dispatch\<close> hands on, to a local handler or to the
  cloud, carries exactly the headers that \<^verbatim>\<open>toHeaders\<close> returned.
\<close>

theorem forwarded_headers_stripped:
  "(\<forall>hs. toHeaders nh True = Inr hs \<longrightarrow>
      (\<forall>name. strippedName (toLowerCase name) \<longrightarrow> \<not> headersHas hs name) \<and>
      (distinct (map (\<lambda>e. toLowerCase (fst e)) nh) \<longrightarrow>
         (\<forall>(k, v) \<in> set nh. \<not> strippedName (toLowerCase k) \<longrightarrow>
             headersValues hs k = map normalizeValue (valuesOf v)))) \<and>
   ((\<exists>hs. toHeaders nh True = Inr hs) \<longleftrightarrow> list_all acceptable nh) \<and>
   (\<forall>ev \<in> set (snd (dispatch env u rq routes cx)).
      toHeaders (headers rq) True = Inr (forwardedHeaders ev))"
proof (intro conjI allI impI ballI)
  fix hs name
  assume "toHeaders nh True = Inr hs" "strippedName (toLowerCase name)"
  then show "\<not> headersHas hs name" by (rule toHeaders_no_stripped)
next
  fix hs x
  assume h: "toHeaders nh True = Inr hs" "distinct (map (\<lambda>e. toLowerCase (fst e)) nh)"
    "x \<in> set nh"
  show "case x of (k, v) \<Rightarrow> \<not> strippedName (toLowerCase k) \<longrightarrow>
          headersValues hs k = map normalizeValue (valuesOf v)"
  proof (cases x)
    case (Pair k v)
    with h toHeaders_preserves [of nh k v hs] show ?thesis by simp
  qed
next
  show "(\<exists>hs. toHeaders nh True = Inr hs) \<longleftrightarrow> list_all acceptable nh"
    by (rule toHeaders_returns)
next
  fix ev
  assume "ev \<in> set (snd (dispatch env u rq routes cx))"
  with dispatch_events [of env u rq routes cx]
  show "toHeaders (headers rq) True = Inr (forwardedHeaders ev)" by blast
qed

theorem forwarded_headers_stripped_witness:
  "toHeaders exampleHeaders True = Inr exampleForwarded \<and>
   \<not> headersHas exampleForwarded ''Host'' \<and>
   \<not> headersHas exampleForwarded ''Origin'' \<and>
   \<not> headersHas exampleForwarded ''Sec-Fetch-Mode'' \<and>
   headersValues exampleForwarded ''accept'' = [''application/json''] \<and>
   headersValues exampleForwarded ''x-tags'' = [''a'', ''b''] \<and>
   forwardedHeaders (hd (snd (dispatch (exampleEnv NotAFunction (Inr cloudAnswer))
                                (exampleUrl ''/api/news'') exampleRequest exampleRoutes
                                exampleContext)))
     = exampleForwarded"
proof -
  note inst = forwarded_headers_stripped [of exampleHeaders "exampleEnv NotAFunction (Inr cloudAnswer)"
      "exampleUrl ''/api/news''" exampleRequest exampleRoutes exampleContext]
  from inst example_acceptable obtain hs where hs: "toHeaders exampleHeaders True = Inr hs"
    by blast
  with example_toHeaders have eq: "hs = exampleForwarded" by simp
  have d: "distinct (map (\<lambda>e. toLowerCase (fst e)) exampleHeaders)"
    by (simp add: example_names)
  have mem: "(''accept'', Single ''application/json'') \<in> set exampleHeaders"
    "(''x-tags'', Multiple [''a'', ''b'']) \<in> set exampleHeaders"
    by (simp_all add: exampleHeaders_def)
  from inst hs eq have strip: "strippedName (toLowerCase name) \<Longrightarrow>
      \<not> headersHas exampleForwarded name" for name
    by blast
  from inst hs eq d have keep: "(k, v) \<in> set exampleHeaders \<Longrightarrow>
      \<not> strippedName (toLowerCase k) \<Longrightarrow>
      headersValues exampleForwarded k = map normalizeValue (valuesOf v)" for k v
    by blast
  from inst have ev: "\<forall>ev \<in> set (snd (dispatch (exampleEnv NotAFunction (Inr cloudAnswer))
                        (exampleUrl ''/api/news'') exampleRequest exampleRoutes exampleContext)).
      toHeaders (headers exampleRequest) True = Inr (forwardedHeaders ev)"
    by blast
  have "snd (dispatch (exampleEnv NotAFunction (Inr cloudAnswer))
                        (exampleUrl ''/api/news'') exampleRequest exampleRoutes exampleContext) \<noteq> []"
    by (simp add: dispatch_def example_pick handlerMissing_def orElse_def tryCloudFallback_def
        proxyToCloud_def example_toHeaders)
  then have "hd (snd (dispatch (exampleEnv NotAFunction (Inr cloudAnswer))
                        (exampleUrl ''/api/news'') exampleRequest exampleRoutes exampleContext))
      \<in> set (snd (dispatch (exampleEnv NotAFunction (Inr cloudAnswer))
                        (exampleUrl ''/api/news'') exampleRequest exampleRoutes exampleContext))"
    by (rule hd_in_set)
  with ev have "toHeaders (headers exampleRequest) True
      = Inr (forwardedHeaders (hd (snd (dispatch (exampleEnv NotAFunction (Inr cloudAnswer))
                        (exampleUrl ''/api/news'') exampleRequest exampleRoutes exampleContext))))"
    by blast
  then have "forwardedHeaders (hd (snd (dispatch (exampleEnv NotAFunction (Inr cloudAnswer))
                        (exampleUrl ''/api/news'') exampleRequest exampleRoutes exampleContext)))
      = exampleForwarded"
    by (simp add: example_toHeaders)
  then show ?thesis
    using strip [of "''Host''"] strip [of "''Origin''"] strip [of "''Sec-Fetch-Mode''"]
      keep [OF mem(1)] keep [OF mem(2)] example_toHeaders
    by (simp add: example_names example_normalized strippedName_def)
qed

end
